theory Spec2Isabelle
  imports Main "HOL-Library.AList"
begin

section \<open>Values handled by the work item client\<close>

text \<open>
  The module \<^verbatim>\<open>rtcclient/workitem.py\<close> works on three kinds of data: the arguments
  a caller passes (arbitrary Python objects), the nested mappings that \<^verbatim>\<open>xmltodict\<close>
  produces from a response body, and the requests handed to the HTTP layer.

  A parsed document is a tree of \<^verbatim>\<open>None\<close>, strings, ordered dictionaries and lists.
  An ordered dictionary is an association list: assignment to a key that exists keeps
  its position, assignment to a new key appends (\<open>AList.update\<close>).
\<close>

datatype xml =
    XNone
  | XStr string
  | XDict "(string \<times> xml) list"
  | XList "xml list"

text \<open>
  Caller-supplied arguments. Besides \<^verbatim>\<open>None\<close>, booleans, integers and strings (Python 3
  strings restricted to ASCII) there are two kinds of objects that the module treats
  differently from those: a tuple, which the \<^verbatim>\<open>%\<close> operator unpacks, and an object of
  any other type (a float, a \<^verbatim>\<open>Decimal\<close>, ...). The module can observe of such an object
  only its text and what \<^verbatim>\<open>int\<close> makes of it, so \<open>PyOther txt r\<close> is an object with
  \<^verbatim>\<open>str(x) = txt\<close> and \<^verbatim>\<open>int(x) = r\<close> (\<open>None\<close> when \<^verbatim>\<open>int\<close> raises): the float \<^verbatim>\<open>3.0\<close> is
  \<open>PyOther ''3.0'' (Some 3)\<close>. \<open>PyTuple txt xs\<close> is the tuple with the elements \<open>xs\<close> and
  \<^verbatim>\<open>str(t) = txt\<close>.
\<close>

datatype pyval =
    PyNone
  | PyBool bool
  | PyInt int
  | PyStr string
  | PyOther string "int option"
  | PyTuple string "pyval list"

datatype pyarg = Scalar pyval | PyList "pyval list"

text \<open>
  Exceptions. The message of a \<^verbatim>\<open>BadValue\<close> is kept as a tag naming the raise
  statement it comes from: \<open>InvalidCommentId\<close> is \<^verbatim>\<open>"Please input valid comment id"\<close>,
  \<open>CommentMissing n\<close> is \<^verbatim>\<open>"Comment %s does not exist" % n\<close>, \<open>InvalidEmail e\<close> is
  \<^verbatim>\<open>"Please specify a valid email address name: %s" % e\<close> and \<open>NotIterable\<close> is
  \<^verbatim>\<open>"Input parameter 'emails_list' is not iterable"\<close>.
  \<open>HTTPError\<close> is \<^verbatim>\<open>requests.exceptions.HTTPError\<close>; \<open>TransportError\<close> is any other
  failure of the HTTP layer or of the XML codec. Calls to the logger have no effect on
  control flow and are left out.
\<close>

datatype bad = InvalidCommentId | CommentMissing int | InvalidEmail pyval | NotIterable

datatype exn =
    BadValue bad
  | NotFound
  | HTTPError
  | TransportError
  | KeyError string
  | TypeError
  | AttributeError
  | ValueError

subsection \<open>Dictionary access\<close>

text \<open>\<^verbatim>\<open>d[k]\<close>: a missing key raises \<^verbatim>\<open>KeyError\<close>; \<^verbatim>\<open>None\<close>, a string or a list
  indexed by a string raises \<^verbatim>\<open>TypeError\<close>.\<close>

definition getitem :: "xml \<Rightarrow> string \<Rightarrow> exn + xml" where
  "getitem d k =
     (case d of
        XDict al \<Rightarrow> (case map_of al k of None \<Rightarrow> Inl (KeyError k) | Some v \<Rightarrow> Inr v)
      | _ \<Rightarrow> Inl TypeError)"

text \<open>\<^verbatim>\<open>d.get(k)\<close> and \<^verbatim>\<open>d.get(k, None)\<close>: a missing key gives \<^verbatim>\<open>None\<close>; only a
  dictionary has the method.\<close>

definition dict_get :: "xml \<Rightarrow> string \<Rightarrow> exn + xml" where
  "dict_get d k =
     (case d of
        XDict al \<Rightarrow> Inr (case map_of al k of None \<Rightarrow> XNone | Some v \<Rightarrow> v)
      | _ \<Rightarrow> Inl AttributeError)"

text \<open>\<^verbatim>\<open>d[k] = v\<close> and \<^verbatim>\<open>d.pop(k)\<close> on a dictionary \<open>d\<close>. Both are only reached
  after \<^verbatim>\<open>d.get\<close> has succeeded on the same object, so \<open>d\<close> is a dictionary there.\<close>

definition setitem :: "xml \<Rightarrow> string \<Rightarrow> xml \<Rightarrow> xml" where
  "setitem d k v = (case d of XDict al \<Rightarrow> XDict (AList.update k v al) | _ \<Rightarrow> d)"

definition pop :: "xml \<Rightarrow> string \<Rightarrow> xml" where
  "pop d k = (case d of XDict al \<Rightarrow> XDict (AList.delete k al) | _ \<Rightarrow> d)"

subsection \<open>Integers and text\<close>

text \<open>\<^verbatim>\<open>str(n)\<close> and \<^verbatim>\<open>"%s" % n\<close> for an integer: decimal digits, a minus sign for a
  negative number. Conversions between integers and text are those of an interpreter
  without a limit on the number of digits (Python before 3.11, or with the limit
  switched off).\<close>

definition digit_char :: "nat \<Rightarrow> char" where
  "digit_char d = ''0123456789'' ! d"

function str_nat :: "nat \<Rightarrow> string" where
  "str_nat n = (if n < 10 then [digit_char n] else str_nat (n div 10) @ [digit_char (n mod 10)])"
  by pat_completeness auto
termination
  by (relation "measure id") auto

definition str_int :: "int \<Rightarrow> string" where
  "str_int i = (if i < 0 then CHR ''-'' # str_nat (nat (- i)) else str_nat (nat i))"

text \<open>\<^verbatim>\<open>int(s)\<close> for a string: surrounding whitespace is stripped, then an optional
  sign and decimal digits, where single underscores may separate digits. Anything
  else raises \<^verbatim>\<open>ValueError\<close> (here: \<open>None\<close>).\<close>

definition is_space :: "char \<Rightarrow> bool" where
  "is_space c = (c \<in> set [CHR '' '', CHR 0x09, CHR 0x0A, CHR 0x0B, CHR 0x0C, CHR 0x0D])"

definition strip :: "string \<Rightarrow> string" where
  "strip s = rev (dropWhile is_space (rev (dropWhile is_space s)))"

definition digit_val :: "char \<Rightarrow> nat option" where
  "digit_val c =
     (let n = (of_char c :: nat) in if 48 \<le> n \<and> n \<le> 57 then Some (n - 48) else None)"

fun parse_digits :: "nat \<Rightarrow> bool \<Rightarrow> string \<Rightarrow> nat option" where
  "parse_digits acc after_digit [] = (if after_digit then Some acc else None)"
| "parse_digits acc after_digit (c # cs) =
     (case digit_val c of
        Some d \<Rightarrow> parse_digits (10 * acc + d) True cs
      | None \<Rightarrow> if c = CHR ''_'' \<and> after_digit then parse_digits acc False cs else None)"

definition py_int :: "string \<Rightarrow> int option" where
  "py_int s =
     (case strip s of
        [] \<Rightarrow> None
      | c # cs \<Rightarrow>
          if c = CHR ''-'' then map_option (\<lambda>n. - int n) (parse_digits 0 False cs)
          else if c = CHR ''+'' then map_option int (parse_digits 0 False cs)
          else map_option int (parse_digits 0 False (c # cs)))"

text \<open>\<^verbatim>\<open>str(v)\<close>, as \<^verbatim>\<open>str.format\<close> applies it to a positional argument.\<close>

fun py_str :: "pyval \<Rightarrow> string" where
  "py_str PyNone = ''None''"
| "py_str (PyBool b) = (if b then ''True'' else ''False'')"
| "py_str (PyInt i) = str_int i"
| "py_str (PyStr s) = s"
| "py_str (PyOther txt r) = txt"
| "py_str (PyTuple txt xs) = txt"

text \<open>\<^verbatim>\<open>"/".join([a, b])\<close> and \<^verbatim>\<open>s.split("/")[-1]\<close>.\<close>

definition join_slash :: "string \<Rightarrow> string \<Rightarrow> string" where
  "join_slash a b = a @ ''/'' @ b"

definition last_segment :: "string \<Rightarrow> string" where
  "last_segment s = rev (takeWhile (\<lambda>c. c \<noteq> CHR ''/'') (rev s))"

section \<open>Collaborators\<close>

text \<open>
  The HTTP layer (\<^verbatim>\<open>self.get\<close>, \<^verbatim>\<open>self.put\<close>, \<^verbatim>\<open>self.post\<close> of the base class) and the
  directory lookup \<^verbatim>\<open>rtc_obj.getOwnedBy\<close> live outside this module and are parameters
  of the model.

  A transport answers a request, given the requests issued before it, with a response
  or an exception; every request issued is appended to the trace, which is the only
  state the model threads. The body of a response is kept in the parsed form
  \<^verbatim>\<open>xmltodict.parse\<close> returns, and the body of a \<^verbatim>\<open>PUT\<close> in the form handed to
  \<^verbatim>\<open>xmltodict.unparse\<close>; a failure of the codec is a failure of the transport.
  A header maps to \<open>None\<close> when the code stores \<^verbatim>\<open>None\<close> under it.
\<close>

type_synonym headers = "(string \<times> string option) list"

datatype request =
    GET string headers
  | PUT string headers xml
  | POST string headers string

record response =
  content :: xml
  resp_headers :: "(string \<times> string) list"

type_synonym trace = "request list"

type_synonym transport = "trace \<Rightarrow> request \<Rightarrow> exn + response"

definition send :: "transport \<Rightarrow> request \<Rightarrow> trace \<Rightarrow> (exn + response) \<times> trace" where
  "send t rq tr = (t tr rq, tr @ [rq])"

record member =
  member_url :: string
  member_email :: string

record rtc_client =
  headers :: headers
  getOwnedBy :: "string \<Rightarrow> exn + member"

record workitem =
  url :: string
  rtc_obj :: rtc_client

fun is_get :: "request \<Rightarrow> bool" where
  "is_get (GET u h) = True"
| "is_get _ = False"

fun is_put :: "request \<Rightarrow> bool" where
  "is_put (PUT u h d) = True"
| "is_put _ = False"

fun is_post :: "request \<Rightarrow> bool" where
  "is_post (POST u h d) = True"
| "is_post _ = False"

definition gets :: "trace \<Rightarrow> nat" where
  "gets tr = length (filter is_get tr)"

definition puts :: "trace \<Rightarrow> nat" where
  "puts tr = length (filter is_put tr)"

definition OSLC_CR_RDF :: string where
  "OSLC_CR_RDF = ''application/rdf+xml''"

section \<open>Subscribers\<close>

subsection \<open>Fetch and write\<close>

definition subscribers_url :: "workitem \<Rightarrow> string" where
  "subscribers_url self = url self @ ''?oslc_cm.properties=rtc_cm:subscribers''"

definition perform_subscribe ::
  "transport \<Rightarrow> workitem \<Rightarrow> trace \<Rightarrow> (exn + headers \<times> xml) \<times> trace" where
  "perform_subscribe t self tr =
     (let hs = headers (rtc_obj self);
          hs = AList.update ''Content-Type'' (Some OSLC_CR_RDF) hs;
          hs = AList.update ''Accept'' (Some OSLC_CR_RDF) hs;
          hs = AList.update ''OSLC-Core-Version'' (Some ''2.0'') hs;
          (r, tr') = send t (GET (subscribers_url self) hs) tr
      in case r of
           Inl e \<Rightarrow> (Inl e, tr')
         | Inr resp \<Rightarrow>
             (Inr (AList.update ''If-Match'' (map_of (resp_headers resp) ''etag'') hs,
                   content resp), tr'))"

definition update_subscribe ::
  "transport \<Rightarrow> workitem \<Rightarrow> headers \<Rightarrow> xml \<Rightarrow> trace \<Rightarrow> (exn + unit) \<times> trace" where
  "update_subscribe t self hs raw_data tr =
     (let (r, tr') = send t (PUT (subscribers_url self) hs raw_data) tr
      in case r of Inl e \<Rightarrow> (Inl e, tr') | Inr resp \<Rightarrow> (Inr (), tr'))"

subsection \<open>Membership checks\<close>

definition check_exist_subscriber :: "member \<Rightarrow> xml \<Rightarrow> exn + bool" where
  "check_exist_subscriber new_subscriber exist_sub =
     (case getitem exist_sub ''@rdf:resource'' of
        Inl e \<Rightarrow> Inl e
      | Inr r \<Rightarrow> Inr (XStr (member_url new_subscriber) = r))"

definition check_missing_subscriber :: "member \<Rightarrow> xml \<Rightarrow> exn + bool" where
  "check_missing_subscriber del_subscriber exist_sub =
     (case getitem exist_sub ''@rdf:resource'' of
        Inl e \<Rightarrow> Inl e
      | Inr r \<Rightarrow> Inr (XStr (member_url del_subscriber) \<noteq> r))"

text \<open>The guard both private helpers start with:
  \<^verbatim>\<open>not isinstance(email, six.string_types) or "@" not in email\<close>.\<close>

fun invalid_email :: "pyval \<Rightarrow> bool" where
  "invalid_email (PyStr s) = (CHR ''@'' \<notin> set s)"
| "invalid_email _ = True"

text \<open>What the guard raises. The message is built first, with
  \<^verbatim>\<open>"Please specify a valid email address name: %s" % email\<close>, and \<^verbatim>\<open>%\<close> takes a tuple
  on its right as the list of arguments: a tuple of one element gives the message for
  that element, any other tuple makes the formatting itself raise \<^verbatim>\<open>TypeError\<close>, and
  no \<^verbatim>\<open>BadValue\<close> is reached.\<close>

fun email_error :: "pyval \<Rightarrow> exn" where
  "email_error (PyTuple txt [x]) = BadValue (InvalidEmail x)"
| "email_error (PyTuple txt xs) = TypeError"
| "email_error email = BadValue (InvalidEmail email)"

subsection \<open>Adding one member to a snapshot\<close>

text \<open>The \<^verbatim>\<open>for ... else\<close> scan of \<^verbatim>\<open>_add_subscriber\<close> over a list of members: the
  result is the value \<^verbatim>\<open>existed_flag\<close> has when the loop is left.\<close>

fun exist_loop :: "member \<Rightarrow> xml list \<Rightarrow> exn + bool" where
  "exist_loop new_subscriber [] = Inr False"
| "exist_loop new_subscriber (exist_sub # rest) =
     (case check_exist_subscriber new_subscriber exist_sub of
        Inl e \<Rightarrow> Inl e
      | Inr existed_flag \<Rightarrow>
          if existed_flag then Inr True else exist_loop new_subscriber rest)"

text \<open>The nested dictionaries are mutated in place by the source; the model writes the
  changed description back into the document it came from.\<close>

definition write_back :: "xml \<Rightarrow> xml \<Rightarrow> xml \<Rightarrow> xml" where
  "write_back raw_data rdf description =
     setitem raw_data ''rdf:RDF'' (setitem rdf ''rdf:Description'' description)"

definition added_url :: string where
  "added_url = ''http://jazz.net/xmlns/prod/jazz/rtc/cm/1.0/''"

definition add_subscriber :: "rtc_client \<Rightarrow> pyval \<Rightarrow> xml \<Rightarrow> exn + bool \<times> xml" where
  "add_subscriber rtc email raw_data =
     (if invalid_email email then Inl (email_error email)
      else case getOwnedBy rtc (py_str email) of
        Inl e \<Rightarrow> Inl e
      | Inr new_subscriber \<Rightarrow>
     (let new_sub = XDict [(''@rdf:resource'', XStr (member_url new_subscriber))] in
      case dict_get raw_data ''rdf:RDF'' of
        Inl e \<Rightarrow> Inl e
      | Inr rdf \<Rightarrow>
     (case dict_get rdf ''rdf:Description'' of
        Inl e \<Rightarrow> Inl e
      | Inr description \<Rightarrow>
     (case dict_get description ''rtc_cm:subscribers'' of
        Inl e \<Rightarrow> Inl e
      | Inr subs \<Rightarrow>
     (case subs of
        XNone \<Rightarrow>
          Inr (False,
               write_back raw_data (setitem rdf ''@xmlns:rtc_cm'' (XStr added_url))
                 (setitem description ''rtc_cm:subscribers'' new_sub))
      | XDict al \<Rightarrow>
          (case check_exist_subscriber new_subscriber subs of
             Inl e \<Rightarrow> Inl e
           | Inr existed_flag \<Rightarrow>
               if \<not> existed_flag
               then Inr (False,
                         write_back raw_data rdf
                           (setitem description ''rtc_cm:subscribers'' (XList [subs, new_sub])))
               else Inr (True, raw_data))
      | XList xs \<Rightarrow>
          (case exist_loop new_subscriber xs of
             Inl e \<Rightarrow> Inl e
           | Inr existed_flag \<Rightarrow>
               if existed_flag then Inr (True, raw_data)
               else Inr (False,
                         write_back raw_data rdf
                           (setitem description ''rtc_cm:subscribers'' (XList (xs @ [new_sub])))))
      | XStr s \<Rightarrow> if s = [] then Inl AttributeError else Inl TypeError)))))"

subsection \<open>Removing one member from a snapshot\<close>

text \<open>The scan of \<^verbatim>\<open>_remove_subscriber\<close> over a list of members: the result is the
  value of \<^verbatim>\<open>missing_flag\<close> when the loop is left and the list after
  \<^verbatim>\<open>subs.remove(exist_sub)\<close>, which deletes the first element equal to the match.\<close>

fun missing_loop :: "member \<Rightarrow> xml list \<Rightarrow> xml list \<Rightarrow> exn + bool \<times> xml list" where
  "missing_loop del_sub [] subs = Inr (True, subs)"
| "missing_loop del_sub (exist_sub # rest) subs =
     (case check_missing_subscriber del_sub exist_sub of
        Inl e \<Rightarrow> Inl e
      | Inr missing_flag \<Rightarrow>
          if \<not> missing_flag then Inr (False, remove1 exist_sub subs)
          else missing_loop del_sub rest subs)"

definition remove_subscriber :: "rtc_client \<Rightarrow> pyval \<Rightarrow> xml \<Rightarrow> exn + bool \<times> xml" where
  "remove_subscriber rtc email raw_data =
     (if invalid_email email then Inl (email_error email)
      else case getOwnedBy rtc (py_str email) of
        Inl e \<Rightarrow> Inl e
      | Inr del_sub \<Rightarrow>
     (case dict_get raw_data ''rdf:RDF'' of
        Inl e \<Rightarrow> Inl e
      | Inr rdf \<Rightarrow>
     (case dict_get rdf ''rdf:Description'' of
        Inl e \<Rightarrow> Inl e
      | Inr description \<Rightarrow>
     (case dict_get description ''rtc_cm:subscribers'' of
        Inl e \<Rightarrow> Inl e
      | Inr subs \<Rightarrow>
     (case subs of
        XNone \<Rightarrow> Inr (True, raw_data)
      | XDict al \<Rightarrow>
          (case check_missing_subscriber del_sub subs of
             Inl e \<Rightarrow> Inl e
           | Inr missing_flag \<Rightarrow>
               if \<not> missing_flag
               then Inr (False, write_back raw_data rdf (pop description ''rtc_cm:subscribers''))
               else Inr (True, raw_data))
      | XList xs \<Rightarrow>
          (case missing_loop del_sub xs xs of
             Inl e \<Rightarrow> Inl e
           | Inr (missing_flag, xs') \<Rightarrow>
               if missing_flag then Inr (True, raw_data)
               else if length xs' = 1
               then Inr (False,
                         write_back raw_data rdf
                           (setitem description ''rtc_cm:subscribers'' (hd xs')))
               else Inr (False,
                         write_back raw_data rdf
                           (setitem description ''rtc_cm:subscribers'' (XList xs'))))
      | XStr s \<Rightarrow> if s = [] then Inr (True, raw_data) else Inl TypeError)))))"

subsection \<open>Public operations on subscribers\<close>

definition addSubscriber ::
  "transport \<Rightarrow> workitem \<Rightarrow> pyval \<Rightarrow> trace \<Rightarrow> (exn + unit) \<times> trace" where
  "addSubscriber t self email tr =
     (case perform_subscribe t self tr of
        (Inl e, tr1) \<Rightarrow> (Inl e, tr1)
      | (Inr (hs, raw_data), tr1) \<Rightarrow>
          (case add_subscriber (rtc_obj self) email raw_data of
             Inl e \<Rightarrow> (Inl e, tr1)
           | Inr (existed_flag, raw_data') \<Rightarrow>
               if existed_flag then (Inr (), tr1)
               else update_subscribe t self hs raw_data' tr1))"

definition removeSubscriber ::
  "transport \<Rightarrow> workitem \<Rightarrow> pyval \<Rightarrow> trace \<Rightarrow> (exn + unit) \<times> trace" where
  "removeSubscriber t self email tr =
     (case perform_subscribe t self tr of
        (Inl e, tr1) \<Rightarrow> (Inl e, tr1)
      | (Inr (hs, raw_data), tr1) \<Rightarrow>
          (case remove_subscriber (rtc_obj self) email raw_data of
             Inl e \<Rightarrow> (Inl e, tr1)
           | Inr (missing_flag, raw_data') \<Rightarrow>
               if missing_flag then (Inr (), tr1)
               else update_subscribe t self hs raw_data' tr1))"

text \<open>\<^verbatim>\<open>hasattr(emails_list, "__iter__")\<close> and the order in which \<^verbatim>\<open>for\<close> visits the
  argument: a list or a tuple yields its elements, a string (which has \<^verbatim>\<open>__iter__\<close> in
  Python 3) its characters as one-character strings; \<^verbatim>\<open>None\<close>, a boolean, an integer
  and an object of another type without \<^verbatim>\<open>__iter__\<close> are refused. (A set or another
  iterable is the list of what it yields.)\<close>

fun py_iter :: "pyarg \<Rightarrow> pyval list option" where
  "py_iter (PyList xs) = Some xs"
| "py_iter (Scalar (PyStr s)) = Some (map (\<lambda>c. PyStr [c]) s)"
| "py_iter (Scalar (PyTuple txt xs)) = Some xs"
| "py_iter (Scalar v) = None"

text \<open>The loops of the batch operations, with the overall flag as accumulator.\<close>

fun add_loop :: "rtc_client \<Rightarrow> pyval list \<Rightarrow> bool \<Rightarrow> xml \<Rightarrow> exn + bool \<times> xml" where
  "add_loop rtc [] existed_flags raw_data = Inr (existed_flags, raw_data)"
| "add_loop rtc (email # rest) existed_flags raw_data =
     (case add_subscriber rtc email raw_data of
        Inl e \<Rightarrow> Inl e
      | Inr (existed_flag, raw_data') \<Rightarrow>
          add_loop rtc rest (existed_flags \<and> existed_flag) raw_data')"

fun remove_loop :: "rtc_client \<Rightarrow> pyval list \<Rightarrow> bool \<Rightarrow> xml \<Rightarrow> exn + bool \<times> xml" where
  "remove_loop rtc [] missing_flags raw_data = Inr (missing_flags, raw_data)"
| "remove_loop rtc (email # rest) missing_flags raw_data =
     (case remove_subscriber rtc email raw_data of
        Inl e \<Rightarrow> Inl e
      | Inr (missing_flag, raw_data') \<Rightarrow>
          remove_loop rtc rest (missing_flags \<and> missing_flag) raw_data')"

definition addSubscribers ::
  "transport \<Rightarrow> workitem \<Rightarrow> pyarg \<Rightarrow> trace \<Rightarrow> (exn + unit) \<times> trace" where
  "addSubscribers t self emails_list tr =
     (case py_iter emails_list of
        None \<Rightarrow> (Inl (BadValue NotIterable), tr)
      | Some emails \<Rightarrow>
     (case perform_subscribe t self tr of
        (Inl e, tr1) \<Rightarrow> (Inl e, tr1)
      | (Inr (hs, raw_data), tr1) \<Rightarrow>
          (case add_loop (rtc_obj self) emails False raw_data of
             Inl e \<Rightarrow> (Inl e, tr1)
           | Inr (existed_flags, raw_data') \<Rightarrow>
               if existed_flags then (Inr (), tr1)
               else update_subscribe t self hs raw_data' tr1)))"

definition removeSubscribers ::
  "transport \<Rightarrow> workitem \<Rightarrow> pyarg \<Rightarrow> trace \<Rightarrow> (exn + unit) \<times> trace" where
  "removeSubscribers t self emails_list tr =
     (case py_iter emails_list of
        None \<Rightarrow> (Inl (BadValue NotIterable), tr)
      | Some emails \<Rightarrow>
     (case perform_subscribe t self tr of
        (Inl e, tr1) \<Rightarrow> (Inl e, tr1)
      | (Inr (hs, raw_data), tr1) \<Rightarrow>
          (case remove_loop (rtc_obj self) emails True raw_data of
             Inl e \<Rightarrow> (Inl e, tr1)
           | Inr (missing_flags, raw_data') \<Rightarrow>
               if missing_flags then (Inr (), tr1)
               else update_subscribe t self hs raw_data' tr1)))"

section \<open>Comments\<close>

record comment =
  c_url :: string
  c_raw_data :: xml

text \<open>Modelled from the spec: the constructor \<^verbatim>\<open>Comment(url, rtc_obj, raw_data=None)\<close>
  of \<^verbatim>\<open>rtcclient.models\<close> is not part of this module. The comment object is bound
  to the URL it is given. With parsed data supplied it is built from them; without, it
  reads its representation with one \<^verbatim>\<open>GET\<close> on its URL through the transport, and a
  failure of that request (an \<^verbatim>\<open>HTTPError\<close> for a status such as 404) surfaces
  unchanged.\<close>

definition Comment ::
  "transport \<Rightarrow> string \<Rightarrow> rtc_client \<Rightarrow> xml \<Rightarrow> trace \<Rightarrow> (exn + comment) \<times> trace" where
  "Comment t u rtc raw_data tr =
     (if raw_data \<noteq> XNone
      then (Inr \<lparr>c_url = u, c_raw_data = raw_data\<rparr>, tr)
      else let (r, tr') = send t (GET u (headers rtc)) tr
           in case r of
                Inl e \<Rightarrow> (Inl e, tr')
              | Inr resp \<Rightarrow> (Inr \<lparr>c_url = u, c_raw_data = content resp\<rparr>, tr'))"

subsection \<open>Lookup by id\<close>

text \<open>The body of the \<^verbatim>\<open>try\<close> block of \<^verbatim>\<open>getCommentByID\<close>.\<close>

fun check_comment_id :: "pyval \<Rightarrow> exn + int" where
  "check_comment_id (PyBool b) = Inl ValueError"
| "check_comment_id (PyStr s) = (case py_int s of None \<Rightarrow> Inl ValueError | Some i \<Rightarrow> Inr i)"
| "check_comment_id (PyInt i) = Inr i"
| "check_comment_id PyNone = Inl ValueError"
| "check_comment_id (PyOther txt r) = Inl ValueError"
| "check_comment_id (PyTuple txt xs) = Inl ValueError"

definition getCommentByID ::
  "transport \<Rightarrow> workitem \<Rightarrow> pyval \<Rightarrow> trace \<Rightarrow> (exn + comment) \<times> trace" where
  "getCommentByID t self comment_id tr =
     (case check_comment_id comment_id of
        Inl e \<Rightarrow>
          if e = ValueError \<or> e = TypeError then (Inl (BadValue InvalidCommentId), tr)
          else (Inl e, tr)
      | Inr i \<Rightarrow>
          (case Comment t (join_slash (url self) (''rtc_cm:comments/'' @ str_int i))
                  (rtc_obj self) XNone tr of
             (Inl e, tr') \<Rightarrow>
               if e = HTTPError then (Inl (BadValue (CommentMissing i)), tr') else (Inl e, tr')
           | (Inr c, tr') \<Rightarrow> (Inr c, tr')))"

subsection \<open>Appending a comment\<close>

definition nl :: string where
  "nl = [CHR 0x0A]"

definition comment_head :: string where
  \<open>comment_head = concat
     [nl, ''<rdf:RDF'', nl,
      ''    xmlns:rdf="http://www.w3.org/1999/02/22-rdf-syntax-ns#"'', nl,
      ''    xmlns:rtc_ext="http://jazz.net/xmlns/prod/jazz/rtc/ext/1.0/"'', nl,
      ''    xmlns:rtc_cm="http://jazz.net/xmlns/prod/jazz/rtc/cm/1.0/"'', nl,
      ''    xmlns:oslc_cm="http://open-services.net/ns/cm#"'', nl,
      ''    xmlns:dcterms="http://purl.org/dc/terms/"'', nl,
      ''    xmlns:oslc_cmx="http://open-services.net/ns/cm-x#"'', nl,
      ''    xmlns:oslc="http://open-services.net/ns/core#">'', nl,
      ''  <rdf:Description rdf:about="'']\<close>

definition comment_mid :: string where
  \<open>comment_mid = concat
     [''">'', nl,
      ''    <rdf:type rdf:resource="http://open-services.net/ns/core#Comment"/>'', nl,
      ''    <dcterms:description rdf:parseType="Literal">'']\<close>

definition comment_tail :: string where
  \<open>comment_tail = concat
     [''</dcterms:description>'', nl,
      ''  </rdf:Description>'', nl,
      ''</rdf:RDF>'', nl]\<close>

text \<open>\<^verbatim>\<open>origin_comment.format(comment_url, msg)\<close>: the two fields are replaced by the
  text of the arguments, as it is.\<close>

definition origin_comment_format :: "string \<Rightarrow> pyval \<Rightarrow> string" where
  "origin_comment_format comment_url msg =
     comment_head @ comment_url @ comment_mid @ py_str msg @ comment_tail"

definition addComment ::
  "transport \<Rightarrow> workitem \<Rightarrow> pyval \<Rightarrow> trace \<Rightarrow> (exn + comment) \<times> trace" where
  "addComment t self msg tr =
     (let comments_url = join_slash (url self) ''rtc_cm:comments'';
          hs = headers (rtc_obj self);
          (r, tr1) = send t (GET comments_url hs) tr
      in case r of
        Inl e \<Rightarrow> (Inl e, tr1)
      | Inr resp \<Rightarrow>
     (case getitem (content resp) ''oslc_cm:Collection'' of
        Inl e \<Rightarrow> (Inl e, tr1)
      | Inr collection \<Rightarrow>
     (case getitem collection ''@oslc_cm:totalCount'' of
        Inl e \<Rightarrow> (Inl e, tr1)
      | Inr (XStr total_cnt) \<Rightarrow>
     (let comment_url = join_slash comments_url total_cnt;
          comment_msg = origin_comment_format comment_url msg;
          hs = AList.update ''Content-Type'' (Some OSLC_CR_RDF) hs;
          hs = AList.update ''Accept'' (Some OSLC_CR_RDF) hs;
          hs = AList.update ''OSLC-Core-Version'' (Some ''2.0'') hs;
          hs = AList.update ''If-Match'' (map_of (resp_headers resp) ''etag'') hs;
          req_url = join_slash comments_url ''oslc:comment'';
          (r2, tr2) = send t (POST req_url hs comment_msg) tr1
      in case r2 of
        Inl e \<Rightarrow> (Inl e, tr2)
      | Inr resp2 \<Rightarrow>
     (case getitem (content resp2) ''rdf:RDF'' of
        Inl e \<Rightarrow> (Inl e, tr2)
      | Inr rdf \<Rightarrow>
     (case getitem rdf ''rdf:Description'' of
        Inl e \<Rightarrow> (Inl e, tr2)
      | Inr description \<Rightarrow> Comment t comment_url (rtc_obj self) description tr2)))
      | Inr other \<Rightarrow> (Inl TypeError, tr1))))"

section \<open>Reading a snapshot\<close>

text \<open>
  What a snapshot says about the subscribers of the work item: the entries of
  \<^verbatim>\<open>raw_data["rdf:RDF"]["rdf:Description"]\<close>, the entry stored under
  \<^verbatim>\<open>rtc_cm:subscribers\<close> (absent, a bare mapping for one member, a list for several),
  the members as a sequence, and whether a person is among them. A member is compared
  by the text of its \<^verbatim>\<open>@rdf:resource\<close> reference.
\<close>

definition description_of :: "xml \<Rightarrow> (string \<times> xml) list option" where
  "description_of raw_data =
     (case raw_data of
        XDict a \<Rightarrow>
          (case map_of a ''rdf:RDF'' of
             Some (XDict b) \<Rightarrow>
               (case map_of b ''rdf:Description'' of Some (XDict c) \<Rightarrow> Some c | _ \<Rightarrow> None)
           | _ \<Rightarrow> None)
      | _ \<Rightarrow> None)"

definition subscribers_entry :: "xml \<Rightarrow> xml option" where
  "subscribers_entry raw_data =
     (case description_of raw_data of None \<Rightarrow> None | Some c \<Rightarrow> map_of c ''rtc_cm:subscribers'')"

fun is_dict :: "xml \<Rightarrow> bool" where
  "is_dict (XDict al) = True"
| "is_dict _ = False"

fun entry_ok :: "xml option \<Rightarrow> bool" where
  "entry_ok None = True"
| "entry_ok (Some (XDict al)) = True"
| "entry_ok (Some (XList xs)) = (2 \<le> length xs \<and> list_all is_dict xs)"
| "entry_ok (Some v) = False"

definition wire_ok :: "xml \<Rightarrow> bool" where
  "wire_ok raw_data = (description_of raw_data \<noteq> None \<and> entry_ok (subscribers_entry raw_data))"

fun normalize_entry :: "xml option \<Rightarrow> xml list" where
  "normalize_entry (Some (XDict al)) = [XDict al]"
| "normalize_entry (Some (XList xs)) = xs"
| "normalize_entry v = []"

definition members_of :: "xml \<Rightarrow> xml list" where
  "members_of raw_data = normalize_entry (subscribers_entry raw_data)"

definition subscribed :: "member \<Rightarrow> xml \<Rightarrow> bool" where
  "subscribed m raw_data =
     (Inr (XStr (member_url m)) \<in> set (map (\<lambda>x. getitem x ''@rdf:resource'') (members_of raw_data)))"

text \<open>The mapping \<^verbatim>\<open>new_sub\<close> that \<^verbatim>\<open>_add_subscriber\<close> builds for a person.\<close>

definition ref :: "member \<Rightarrow> xml" where
  "ref m = XDict [(''@rdf:resource'', XStr (member_url m))]"

text \<open>A member mapping that carries a reference, so that \<^verbatim>\<open>exist_sub["@rdf:resource"]\<close>
  does not raise.\<close>

definition is_reference :: "xml \<Rightarrow> bool" where
  "is_reference x = (case getitem x ''@rdf:resource'' of Inl e \<Rightarrow> False | Inr r \<Rightarrow> True)"

text \<open>The requests of the subscriber operations: the fetch, and the write conditioned
  on the entity tag of the response \<open>resp\<close> to the fetch.\<close>

definition subscribe_headers :: "workitem \<Rightarrow> headers" where
  "subscribe_headers self =
     AList.update ''OSLC-Core-Version'' (Some ''2.0'')
       (AList.update ''Accept'' (Some OSLC_CR_RDF)
         (AList.update ''Content-Type'' (Some OSLC_CR_RDF) (headers (rtc_obj self))))"

definition fetch_request :: "workitem \<Rightarrow> request" where
  "fetch_request self = GET (subscribers_url self) (subscribe_headers self)"

definition write_request :: "workitem \<Rightarrow> response \<Rightarrow> xml \<Rightarrow> request" where
  "write_request self resp raw_data =
     PUT (subscribers_url self)
       (AList.update ''If-Match'' (map_of (resp_headers resp) ''etag'') (subscribe_headers self))
       raw_data"

section \<open>A server and a directory for concrete runs\<close>

text \<open>
  Concrete collaborators on which the operations can be run: a directory that resolves
  every address to a person, a work item, snapshots of its subscriber document, a
  server that answers a \<^verbatim>\<open>GET\<close> with the body of the last \<^verbatim>\<open>PUT\<close> it received
  (or with its initial document), and a server that answers every request with an
  HTTP error.
\<close>

definition person :: "string \<Rightarrow> member" where
  "person email = \<lparr>member_url = ''u/'' @ email, member_email = email\<rparr>"

definition demo_rtc :: rtc_client where
  "demo_rtc = \<lparr>headers = [], getOwnedBy = (\<lambda>email. Inr (person email))\<rparr>"

definition demo_item :: workitem where
  "demo_item = \<lparr>url = ''w/7'', rtc_obj = demo_rtc\<rparr>"

definition snapshot :: "(string \<times> xml) list \<Rightarrow> xml" where
  "snapshot props =
     XDict [(''rdf:RDF'',
             XDict [(''@xmlns:rdf'', XStr ''ns''),
                    (''rdf:Description'', XDict ((''@rdf:about'', XStr ''w/7'') # props))])]"

text \<open>The document a server holds after a trace: the body of the last \<^verbatim>\<open>PUT\<close>, if
  there was one.\<close>

fun last_put :: "trace \<Rightarrow> xml option" where
  "last_put [] = None"
| "last_put (rq # tr) =
     (case last_put tr of
        Some d \<Rightarrow> Some d
      | None \<Rightarrow> (case rq of PUT u h d \<Rightarrow> Some d | _ \<Rightarrow> None))"

definition store_server :: "xml \<Rightarrow> transport" where
  "store_server init tr rq =
     (case rq of
        GET u h \<Rightarrow>
          Inr \<lparr>content = (case last_put tr of Some d \<Rightarrow> d | None \<Rightarrow> init),
               resp_headers = [(''etag'', ''v'')]\<rparr>
      | _ \<Rightarrow> Inr \<lparr>content = XNone, resp_headers = []\<rparr>)"

definition failing_server :: transport where
  "failing_server tr rq = Inl HTTPError"

section \<open>Comment identifiers\<close>

text \<open>The URL and the request of \<^verbatim>\<open>getCommentByID\<close> for the accepted identifier \<open>i\<close>.\<close>

definition comment_by_id_url :: "workitem \<Rightarrow> int \<Rightarrow> string" where
  "comment_by_id_url self i = join_slash (url self) (''rtc_cm:comments/'' @ str_int i)"

definition comment_request :: "workitem \<Rightarrow> int \<Rightarrow> request" where
  "comment_request self i = GET (comment_by_id_url self i) (headers (rtc_obj self))"

text \<open>The rule for comment identifiers in the specification's words: a value is
  rejected when it is a boolean or cannot be coerced to an integer. \<open>spec_coerce\<close> is
  what \<^verbatim>\<open>int\<close> makes of a value: it coerces a boolean to 0 or 1, which is why booleans
  are named separately, it parses a string, it truncates a float, and it raises for
  \<^verbatim>\<open>None\<close> and for a tuple.\<close>

fun spec_coerce :: "pyval \<Rightarrow> int option" where
  "spec_coerce (PyInt i) = Some i"
| "spec_coerce (PyStr s) = py_int s"
| "spec_coerce (PyBool b) = Some (if b then 1 else 0)"
| "spec_coerce PyNone = None"
| "spec_coerce (PyOther txt r) = r"
| "spec_coerce (PyTuple txt xs) = None"

fun is_boolean :: "pyval \<Rightarrow> bool" where
  "is_boolean (PyBool b) = True"
| "is_boolean v = False"

definition spec_rejects :: "pyval \<Rightarrow> bool" where
  "spec_rejects v = (is_boolean v \<or> spec_coerce v = None)"

text \<open>The amended rule: rejected is, besides, every object that is neither an integer
  nor a string, whatever \<^verbatim>\<open>int\<close> would make of it.\<close>

fun is_integer :: "pyval \<Rightarrow> bool" where
  "is_integer (PyInt i) = True"
| "is_integer v = False"

fun is_string :: "pyval \<Rightarrow> bool" where
  "is_string (PyStr s) = True"
| "is_string v = False"

fun is_tuple :: "pyval \<Rightarrow> bool" where
  "is_tuple (PyTuple txt xs) = True"
| "is_tuple v = False"

definition rejected_id :: "pyval \<Rightarrow> bool" where
  "rejected_id v = (spec_rejects v \<or> \<not> (is_integer v \<or> is_string v))"

section \<open>What an operation wrote\<close>

text \<open>The documents an operation has sent with \<^verbatim>\<open>PUT\<close>, in order.\<close>

fun written :: "request \<Rightarrow> xml option" where
  "written (PUT u h d) = Some d"
| "written rq = None"

definition written_bodies :: "trace \<Rightarrow> xml list" where
  "written_bodies tr = List.map_filter written tr"

text \<open>The wire convention for the subscribers of a work item in the specification's
  words, as the map from a sequence of members to the entry that encodes it: no
  member, no entry; one member, the bare mapping; several members, the list of them.\<close>

fun denormalize :: "xml list \<Rightarrow> xml option" where
  "denormalize [] = None"
| "denormalize [m] = Some m"
| "denormalize ms = Some (XList ms)"

text \<open>The collection that should result, on sequences of members: a member belongs to a
  person when its reference is the URL of the person; adding appends the reference of
  a person who has no member yet; removing deletes the first member of the person.\<close>

definition has_reference :: "member \<Rightarrow> xml \<Rightarrow> bool" where
  "has_reference m x = (getitem x ''@rdf:resource'' = Inr (XStr (member_url m)))"

definition add_member :: "member \<Rightarrow> xml list \<Rightarrow> xml list" where
  "add_member m ms = (if list_ex (has_reference m) ms then ms else ms @ [ref m])"

fun remove_member :: "member \<Rightarrow> xml list \<Rightarrow> xml list" where
  "remove_member m [] = []"
| "remove_member m (x # xs) = (if has_reference m x then xs else x # remove_member m xs)"

section \<open>Requests of the comment operations\<close>

text \<open>The comments collection of a work item, the total count read from the fetched
  collection (\<^verbatim>\<open>raw_data["oslc_cm:Collection"]["@oslc_cm:totalCount"]\<close>, which must be
  a string for \<^verbatim>\<open>"/".join\<close>), the \<^verbatim>\<open>POST\<close> that carries a comment, and the bodies an
  operation has posted.\<close>

definition comments_url :: "workitem \<Rightarrow> string" where
  "comments_url self = join_slash (url self) ''rtc_cm:comments''"

definition total_count :: "xml \<Rightarrow> exn + string" where
  "total_count raw_data =
     (case getitem raw_data ''oslc_cm:Collection'' of
        Inl e \<Rightarrow> Inl e
      | Inr collection \<Rightarrow>
          (case getitem collection ''@oslc_cm:totalCount'' of
             Inl e \<Rightarrow> Inl e
           | Inr (XStr n) \<Rightarrow> Inr n
           | Inr other \<Rightarrow> Inl TypeError))"

definition comment_post :: "workitem \<Rightarrow> response \<Rightarrow> string \<Rightarrow> request" where
  "comment_post self resp body =
     POST (join_slash (comments_url self) ''oslc:comment'')
       (AList.update ''If-Match'' (map_of (resp_headers resp) ''etag'')
         (AList.update ''OSLC-Core-Version'' (Some ''2.0'')
           (AList.update ''Accept'' (Some OSLC_CR_RDF)
             (AList.update ''Content-Type'' (Some OSLC_CR_RDF) (headers (rtc_obj self))))))
       body"

fun posted :: "request \<Rightarrow> string option" where
  "posted (POST u h d) = Some d"
| "posted rq = None"

definition posted_bodies :: "trace \<Rightarrow> string list" where
  "posted_bodies tr = List.map_filter posted tr"

text \<open>A server for comments: it reports the total count \<open>n\<close> on \<^verbatim>\<open>GET\<close> and answers a
  \<^verbatim>\<open>POST\<close> with the description of the new comment.\<close>

definition comment_server :: "string \<Rightarrow> transport" where
  "comment_server n tr rq =
     (case rq of
        POST u h d \<Rightarrow>
          Inr \<lparr>content = XDict [(''rdf:RDF'', XDict [(''rdf:Description'',
                  XDict [(''dcterms:description'', XStr ''text'')])])],
               resp_headers = []\<rparr>
      | _ \<Rightarrow>
          Inr \<lparr>content = XDict [(''oslc_cm:Collection'', XDict [(''@oslc_cm:totalCount'', XStr n)])],
               resp_headers = [(''etag'', ''c'')]\<rparr>)"

text \<open>Escaping of markup-significant characters, which the specification asks of the
  comment text, and the request body it would give.\<close>

definition escape_char :: "char \<Rightarrow> string" where
  "escape_char c =
     (if c = CHR ''&'' then ''&amp;''
      else if c = CHR ''<'' then ''&lt;''
      else if c = CHR ''>'' then ''&gt;''
      else [c])"

definition xml_escape :: "string \<Rightarrow> string" where
  "xml_escape s = concat (map escape_char s)"

definition spec_comment_body :: "string \<Rightarrow> pyval \<Rightarrow> string" where
  "spec_comment_body comment_url msg =
     comment_head @ comment_url @ comment_mid @ xml_escape (py_str msg) @ comment_tail"

definition plain :: "char \<Rightarrow> bool" where
  "plain c = (c \<noteq> CHR ''&'' \<and> c \<noteq> CHR ''<'' \<and> c \<noteq> CHR ''>'')"

section \<open>Batches\<close>

text \<open>Processing the emails of a batch one after the other, in the order given, each
  step working on the snapshot the step before has left; an email that can be
  resolved to a person; an email whose person is not among the subscribers of a
  snapshot.\<close>

fun in_order ::
  "(pyval \<Rightarrow> xml \<Rightarrow> exn + bool \<times> xml) \<Rightarrow> pyval list \<Rightarrow> xml \<Rightarrow> exn + xml" where
  "in_order step [] raw_data = Inr raw_data"
| "in_order step (email # rest) raw_data =
     (case step email raw_data of
        Inl e \<Rightarrow> Inl e
      | Inr (flag, raw_data') \<Rightarrow> in_order step rest raw_data')"

definition resolvable :: "rtc_client \<Rightarrow> pyval \<Rightarrow> bool" where
  "resolvable rtc email =
     (\<not> invalid_email email \<and>
      (case getOwnedBy rtc (py_str email) of Inl e \<Rightarrow> False | Inr m \<Rightarrow> True))"

definition absent_email :: "rtc_client \<Rightarrow> xml \<Rightarrow> pyval \<Rightarrow> bool" where
  "absent_email rtc raw_data email =
     (case getOwnedBy rtc (py_str email) of Inl e \<Rightarrow> False | Inr m \<Rightarrow> \<not> subscribed m raw_data)"

text \<open>The collection that should result from a batch: the persons of the emails are
  added, or removed, one after the other in the order of the batch.\<close>

fun add_all :: "rtc_client \<Rightarrow> pyval list \<Rightarrow> xml list \<Rightarrow> xml list" where
  "add_all rtc [] ms = ms"
| "add_all rtc (email # rest) ms =
     (case getOwnedBy rtc (py_str email) of
        Inl e \<Rightarrow> ms
      | Inr m \<Rightarrow> add_all rtc rest (add_member m ms))"

fun remove_all :: "rtc_client \<Rightarrow> pyval list \<Rightarrow> xml list \<Rightarrow> xml list" where
  "remove_all rtc [] ms = ms"
| "remove_all rtc (email # rest) ms =
     (case getOwnedBy rtc (py_str email) of
        Inl e \<Rightarrow> ms
      | Inr m \<Rightarrow> remove_all rtc rest (remove_member m ms))"

section \<open>Properties of the private helpers\<close>

lemma dict_get_chain:
  assumes "dict_get raw ''rdf:RDF'' = Inr rdf" "dict_get rdf ''rdf:Description'' = Inr d"
    "dict_get d k = Inr subs"
  shows "\<exists>a b c. raw = XDict a \<and> rdf = XDict b \<and> d = XDict c \<and> map_of a ''rdf:RDF'' = Some rdf
     \<and> map_of b ''rdf:Description'' = Some d
     \<and> subs = (case map_of c k of None \<Rightarrow> XNone | Some v \<Rightarrow> v)"
  using assms by (auto simp: dict_get_def split: xml.splits option.splits)

lemma description_of_write_back:
  "description_of (write_back (XDict a) (XDict b) (XDict c)) = Some c"
  by (simp add: description_of_def write_back_def setitem_def update_conv')

lemma check_exist_Inr:
  "check_exist_subscriber m x = Inr b \<longleftrightarrow>
     (\<exists>r. getitem x ''@rdf:resource'' = Inr r \<and> b = (XStr (member_url m) = r))"
  by (auto simp: check_exist_subscriber_def split: sum.splits)

lemma check_missing_Inr:
  "check_missing_subscriber m x = Inr b \<longleftrightarrow>
     (\<exists>r. getitem x ''@rdf:resource'' = Inr r \<and> b = (XStr (member_url m) \<noteq> r))"
  by (auto simp: check_missing_subscriber_def split: sum.splits)

lemma exist_loop_flag:
  "exist_loop m xs = Inr fl \<Longrightarrow>
     fl = (Inr (XStr (member_url m)) \<in> set (map (\<lambda>x. getitem x ''@rdf:resource'') xs))"
proof (induction xs)
  case Nil
  then show ?case by simp
next
  case (Cons x xs)
  then show ?case
    by (auto simp: check_exist_Inr split: sum.splits if_splits)
qed

lemma exist_loop_append:
  "exist_loop m xs = Inr False \<Longrightarrow> exist_loop m (xs @ [y]) = check_exist_subscriber m y"
  by (induction xs) (auto split: sum.splits if_splits)

lemma missing_loop_flag:
  "missing_loop m xs subs = Inr (fl, subs') \<Longrightarrow>
     fl = (Inr (XStr (member_url m)) \<notin> set (map (\<lambda>x. getitem x ''@rdf:resource'') xs))"
proof (induction xs)
  case Nil
  then show ?case by simp
next
  case (Cons x xs)
  then show ?case
    by (auto simp: check_missing_Inr split: sum.splits if_splits)
qed

lemma missing_loop_unchanged:
  "missing_loop m xs subs = Inr (True, subs') \<Longrightarrow> subs' = subs"
  by (induction xs) (auto split: sum.splits if_splits)

lemma missing_loop_removed:
  "missing_loop m xs subs = Inr (False, subs') \<Longrightarrow> \<exists>x \<in> set xs. subs' = remove1 x subs"
  by (induction xs) (auto split: sum.splits if_splits)


lemma description_ofD:
  "description_of raw = Some c \<Longrightarrow>
     \<exists>a b. raw = XDict a \<and> map_of a ''rdf:RDF'' = Some (XDict b)
          \<and> map_of b ''rdf:Description'' = Some (XDict c)"
  by (auto simp: description_of_def split: xml.splits option.splits)

lemma add_subscriber_Inr:
  assumes "add_subscriber rtc e raw = Inr (fl, raw')"
  shows "\<exists>m c. \<not> invalid_email e \<and> getOwnedBy rtc (py_str e) = Inr m \<and> description_of raw = Some c \<and>
     (case map_of c ''rtc_cm:subscribers'' of
        None \<Rightarrow> \<not> fl \<and> description_of raw' = Some (AList.update ''rtc_cm:subscribers'' (ref m) c)
      | Some XNone \<Rightarrow> \<not> fl \<and> description_of raw' = Some (AList.update ''rtc_cm:subscribers'' (ref m) c)
      | Some (XDict al) \<Rightarrow> check_exist_subscriber m (XDict al) = Inr fl \<and>
           (if fl then raw' = raw
            else description_of raw' = Some (AList.update ''rtc_cm:subscribers'' (XList [XDict al, ref m]) c))
      | Some (XList xs) \<Rightarrow> exist_loop m xs = Inr fl \<and>
           (if fl then raw' = raw
            else description_of raw' = Some (AList.update ''rtc_cm:subscribers'' (XList (xs @ [ref m])) c))
      | Some (XStr s) \<Rightarrow> False)"
proof -
  from assms have valid: "\<not> invalid_email e"
    by (auto simp: add_subscriber_def split: if_splits)
  from assms valid obtain m where m: "getOwnedBy rtc (py_str e) = Inr m"
    by (auto simp: add_subscriber_def split: sum.splits)
  from assms valid m obtain rdf where rdf: "dict_get raw ''rdf:RDF'' = Inr rdf"
    by (auto simp: add_subscriber_def Let_def split: sum.splits)
  from assms valid m rdf obtain d where d: "dict_get rdf ''rdf:Description'' = Inr d"
    by (auto simp: add_subscriber_def Let_def split: sum.splits)
  from assms valid m rdf d obtain subs where subs: "dict_get d ''rtc_cm:subscribers'' = Inr subs"
    by (auto simp: add_subscriber_def Let_def split: sum.splits)
  from dict_get_chain[OF rdf d subs] obtain a b c where
    s: "raw = XDict a" "rdf = XDict b" "d = XDict c" "map_of a ''rdf:RDF'' = Some rdf"
       "map_of b ''rdf:Description'' = Some d"
       "subs = (case map_of c ''rtc_cm:subscribers'' of None \<Rightarrow> XNone | Some v \<Rightarrow> v)"
    by blast
  have c: "description_of raw = Some c"
    using s by (simp add: description_of_def)
  have body: "(case subs of
        XNone \<Rightarrow>
          Inr (False,
               write_back raw (setitem rdf ''@xmlns:rtc_cm'' (XStr added_url))
                 (setitem d ''rtc_cm:subscribers'' (ref m)))
      | XDict al \<Rightarrow>
          (case check_exist_subscriber m subs of
             Inl e \<Rightarrow> Inl e
           | Inr existed_flag \<Rightarrow>
               if \<not> existed_flag
               then Inr (False,
                         write_back raw rdf
                           (setitem d ''rtc_cm:subscribers'' (XList [subs, ref m])))
               else Inr (True, raw))
      | XList xs \<Rightarrow>
          (case exist_loop m xs of
             Inl e \<Rightarrow> Inl e
           | Inr existed_flag \<Rightarrow>
               if existed_flag then Inr (True, raw)
               else Inr (False,
                         write_back raw rdf
                           (setitem d ''rtc_cm:subscribers'' (XList (xs @ [ref m])))))
      | XStr s \<Rightarrow> if s = [] then Inl AttributeError else Inl TypeError) = Inr (fl, raw')"
    using assms valid m rdf d subs unfolding add_subscriber_def Let_def ref_def by simp
  have wb: "\<And>b' v. description_of (write_back raw (XDict b') (setitem d ''rtc_cm:subscribers'' v))
      = Some (AList.update ''rtc_cm:subscribers'' v c)"
    using s by (simp add: setitem_def description_of_write_back)
  show ?thesis
  proof (cases "map_of c ''rtc_cm:subscribers''")
    case None
    with s have "subs = XNone" by simp
    with body have "\<not> fl" "raw' = write_back raw (setitem rdf ''@xmlns:rtc_cm'' (XStr added_url))
                 (setitem d ''rtc_cm:subscribers'' (ref m))" by auto
    then show ?thesis using valid m c None wb s(2) by (auto simp: setitem_def)
  next
    case (Some v)
    with s have sv: "subs = v" by simp
    show ?thesis
    proof (cases v)
      case XNone
      with body sv have "\<not> fl" "raw' = write_back raw (setitem rdf ''@xmlns:rtc_cm'' (XStr added_url))
                 (setitem d ''rtc_cm:subscribers'' (ref m))" by auto
      then show ?thesis using valid m c Some XNone wb s(2) by (auto simp: setitem_def)
    next
      case (XStr x2)
      with body sv show ?thesis by (auto split: if_splits)
    next
      case (XDict al)
      with body sv show ?thesis using valid m c Some wb s(2)
        by (auto split: sum.splits if_splits)
    next
      case (XList xs)
      with body sv show ?thesis using valid m c Some wb s(2)
        by (auto split: sum.splits if_splits)
    qed
  qed
qed



lemma add_subscriber_cases [consumes 1, case_names absent single_new single_old plural_new plural_old]:
  assumes "add_subscriber rtc e raw = Inr (fl, raw')"
  obtains
    (absent) m c where "\<not> invalid_email e" "getOwnedBy rtc (py_str e) = Inr m"
      "description_of raw = Some c"
      "map_of c ''rtc_cm:subscribers'' = None \<or> map_of c ''rtc_cm:subscribers'' = Some XNone"
      "\<not> fl" "description_of raw' = Some (AList.update ''rtc_cm:subscribers'' (ref m) c)"
  | (single_new) m c al where "\<not> invalid_email e" "getOwnedBy rtc (py_str e) = Inr m"
      "description_of raw = Some c" "map_of c ''rtc_cm:subscribers'' = Some (XDict al)"
      "check_exist_subscriber m (XDict al) = Inr False" "\<not> fl"
      "description_of raw' = Some (AList.update ''rtc_cm:subscribers'' (XList [XDict al, ref m]) c)"
  | (single_old) m c al where "\<not> invalid_email e" "getOwnedBy rtc (py_str e) = Inr m"
      "description_of raw = Some c" "map_of c ''rtc_cm:subscribers'' = Some (XDict al)"
      "check_exist_subscriber m (XDict al) = Inr True" "fl" "raw' = raw"
  | (plural_new) m c xs where "\<not> invalid_email e" "getOwnedBy rtc (py_str e) = Inr m"
      "description_of raw = Some c" "map_of c ''rtc_cm:subscribers'' = Some (XList xs)"
      "exist_loop m xs = Inr False" "\<not> fl"
      "description_of raw' = Some (AList.update ''rtc_cm:subscribers'' (XList (xs @ [ref m])) c)"
  | (plural_old) m c xs where "\<not> invalid_email e" "getOwnedBy rtc (py_str e) = Inr m"
      "description_of raw = Some c" "map_of c ''rtc_cm:subscribers'' = Some (XList xs)"
      "exist_loop m xs = Inr True" "fl" "raw' = raw"
proof -
  from add_subscriber_Inr[OF assms] obtain m c where
    v: "\<not> invalid_email e" and m: "getOwnedBy rtc (py_str e) = Inr m" and
    c: "description_of raw = Some c" and
    k: "(case map_of c ''rtc_cm:subscribers'' of
        None \<Rightarrow> \<not> fl \<and> description_of raw' = Some (AList.update ''rtc_cm:subscribers'' (ref m) c)
      | Some XNone \<Rightarrow> \<not> fl \<and> description_of raw' = Some (AList.update ''rtc_cm:subscribers'' (ref m) c)
      | Some (XDict al) \<Rightarrow> check_exist_subscriber m (XDict al) = Inr fl \<and>
           (if fl then raw' = raw
            else description_of raw' = Some (AList.update ''rtc_cm:subscribers'' (XList [XDict al, ref m]) c))
      | Some (XList xs) \<Rightarrow> exist_loop m xs = Inr fl \<and>
           (if fl then raw' = raw
            else description_of raw' = Some (AList.update ''rtc_cm:subscribers'' (XList (xs @ [ref m])) c))
      | Some (XStr s) \<Rightarrow> False)"
    by blast
  show thesis
  proof (cases "map_of c ''rtc_cm:subscribers''")
    case None
    with k show thesis using absent[OF v m c] by simp
  next
    case (Some x)
    show thesis
    proof (cases x)
      case XNone
      with k Some show thesis using absent[OF v m c] by simp
    next
      case (XStr s)
      with k Some show thesis by simp
    next
      case (XDict al)
      with k Some show thesis using single_new[OF v m c] single_old[OF v m c]
        by (cases fl) simp_all
    next
      case (XList xs)
      with k Some show thesis using plural_new[OF v m c] plural_old[OF v m c]
        by (cases fl) simp_all
    qed
  qed
qed

lemma add_subscriber_flag:
  assumes "add_subscriber rtc e raw = Inr (fl, raw')" "getOwnedBy rtc (py_str e) = Inr m"
  shows "fl = subscribed m raw"
  using assms(1)
proof (cases rule: add_subscriber_cases)
  case (absent m' c)
  then show ?thesis
    by (auto simp: subscribed_def members_of_def subscribers_entry_def)
next
  case (single_new m' c al)
  with assms(2) show ?thesis
    by (auto simp: subscribed_def members_of_def subscribers_entry_def check_exist_Inr)
next
  case (single_old m' c al)
  with assms(2) show ?thesis
    by (auto simp: subscribed_def members_of_def subscribers_entry_def check_exist_Inr)
next
  case (plural_new m' c xs)
  with assms(2) show ?thesis
    by (auto simp: subscribed_def members_of_def subscribers_entry_def dest: exist_loop_flag)
next
  case (plural_old m' c xs)
  with assms(2) show ?thesis
    by (auto simp: subscribed_def members_of_def subscribers_entry_def dest: exist_loop_flag)
qed

lemma add_subscriber_same:
  "add_subscriber rtc e raw = Inr (True, raw') \<Longrightarrow> raw' = raw"
  by (erule add_subscriber_cases) simp_all

lemma add_subscriber_wire_ok:
  assumes "add_subscriber rtc e raw = Inr (fl, raw')" "wire_ok raw"
  shows "wire_ok raw'"
  using assms(1)
proof (cases rule: add_subscriber_cases)
  case (absent m c)
  then show ?thesis
    by (simp add: wire_ok_def subscribers_entry_def update_conv' ref_def)
next
  case (single_new m c al)
  then show ?thesis
    by (simp add: wire_ok_def subscribers_entry_def update_conv' ref_def)
next
  case (single_old m c al)
  with assms(2) show ?thesis by simp
next
  case (plural_new m c xs)
  with assms(2) show ?thesis
    by (simp add: wire_ok_def subscribers_entry_def update_conv' ref_def)
next
  case (plural_old m c xs)
  with assms(2) show ?thesis by simp
qed

lemma add_subscriber_members:
  assumes "add_subscriber rtc e raw = Inr (False, raw')" "getOwnedBy rtc (py_str e) = Inr m"
  shows "members_of raw' = members_of raw @ [ref m]"
  using assms(1)
proof (cases rule: add_subscriber_cases)
  case (absent m' c)
  with assms(2) show ?thesis
    by (auto simp: members_of_def subscribers_entry_def update_conv' ref_def)
next
  case (single_new m' c al)
  with assms(2) show ?thesis
    by (simp add: members_of_def subscribers_entry_def update_conv')
next
  case (plural_new m' c xs)
  with assms(2) show ?thesis
    by (simp add: members_of_def subscribers_entry_def update_conv')
qed simp_all

text \<open>Evaluating the helper on a snapshot whose structure is known.\<close>

lemma add_subscriber_present:
  assumes "description_of raw = Some c" "\<not> invalid_email e" "getOwnedBy rtc (py_str e) = Inr m"
    and "(\<exists>al. map_of c ''rtc_cm:subscribers'' = Some (XDict al) \<and> check_exist_subscriber m (XDict al) = Inr True)
       \<or> (\<exists>xs. map_of c ''rtc_cm:subscribers'' = Some (XList xs) \<and> exist_loop m xs = Inr True)"
  shows "add_subscriber rtc e raw = Inr (True, raw)"
proof -
  from description_ofD[OF assms(1)] obtain a b where
    "raw = XDict a" "map_of a ''rdf:RDF'' = Some (XDict b)" "map_of b ''rdf:Description'' = Some (XDict c)"
    by blast
  with assms(2-) show ?thesis
    by (auto simp: add_subscriber_def dict_get_def)
qed

lemma check_exist_ref: "check_exist_subscriber m (ref m) = Inr True"
  by (simp add: check_exist_subscriber_def ref_def getitem_def)

lemma add_subscriber_again:
  assumes "add_subscriber rtc e raw = Inr (False, raw')"
  shows "add_subscriber rtc e raw' = Inr (True, raw')"
  using assms
proof (cases rule: add_subscriber_cases)
  case (absent m c)
  have "check_exist_subscriber m (XDict [(''@rdf:resource'', XStr (member_url m))]) = Inr True"
    using check_exist_ref[of m] by (simp add: ref_def)
  with add_subscriber_present[OF absent(6) absent(1,2)] show ?thesis
    by (simp add: update_conv' ref_def)
next
  case (single_new m c al)
  from add_subscriber_present[OF single_new(7) single_new(1,2)] show ?thesis
    using check_exist_ref[of m] single_new(5) by (simp add: update_conv')
next
  case (plural_new m c xs)
  from add_subscriber_present[OF plural_new(7) plural_new(1,2)] show ?thesis
    using check_exist_ref[of m] exist_loop_append[OF plural_new(5), of "ref m"]
    by (simp add: update_conv')
qed simp_all

lemma remove_subscriber_Inr:
  assumes "remove_subscriber rtc e raw = Inr (fl, raw')"
  shows "\<exists>m c. \<not> invalid_email e \<and> getOwnedBy rtc (py_str e) = Inr m \<and> description_of raw = Some c \<and>
     (case map_of c ''rtc_cm:subscribers'' of
        None \<Rightarrow> fl \<and> raw' = raw
      | Some XNone \<Rightarrow> fl \<and> raw' = raw
      | Some (XDict al) \<Rightarrow> check_missing_subscriber m (XDict al) = Inr fl \<and>
           (if fl then raw' = raw
            else description_of raw' = Some (AList.delete ''rtc_cm:subscribers'' c))
      | Some (XList xs) \<Rightarrow> (\<exists>xs'. missing_loop m xs xs = Inr (fl, xs') \<and>
           (if fl then raw' = raw
            else description_of raw' = Some (AList.update ''rtc_cm:subscribers''
                    (if length xs' = 1 then hd xs' else XList xs') c)))
      | Some (XStr s) \<Rightarrow> s = [] \<and> fl \<and> raw' = raw)"
proof -
  from assms have valid: "\<not> invalid_email e"
    by (auto simp: remove_subscriber_def split: if_splits)
  from assms valid obtain m where m: "getOwnedBy rtc (py_str e) = Inr m"
    by (auto simp: remove_subscriber_def split: sum.splits)
  from assms valid m obtain rdf where rdf: "dict_get raw ''rdf:RDF'' = Inr rdf"
    by (auto simp: remove_subscriber_def split: sum.splits)
  from assms valid m rdf obtain d where d: "dict_get rdf ''rdf:Description'' = Inr d"
    by (auto simp: remove_subscriber_def split: sum.splits)
  from assms valid m rdf d obtain subs where subs: "dict_get d ''rtc_cm:subscribers'' = Inr subs"
    by (auto simp: remove_subscriber_def split: sum.splits)
  from dict_get_chain[OF rdf d subs] obtain a b c where
    s: "raw = XDict a" "rdf = XDict b" "d = XDict c" "map_of a ''rdf:RDF'' = Some rdf"
       "map_of b ''rdf:Description'' = Some d"
       "subs = (case map_of c ''rtc_cm:subscribers'' of None \<Rightarrow> XNone | Some v \<Rightarrow> v)"
    by blast
  have c: "description_of raw = Some c"
    using s by (simp add: description_of_def)
  have body: "(case subs of
        XNone \<Rightarrow> Inr (True, raw)
      | XDict al \<Rightarrow>
          (case check_missing_subscriber m subs of
             Inl e \<Rightarrow> Inl e
           | Inr missing_flag \<Rightarrow>
               if \<not> missing_flag
               then Inr (False, write_back raw rdf (pop d ''rtc_cm:subscribers''))
               else Inr (True, raw))
      | XList xs \<Rightarrow>
          (case missing_loop m xs xs of
             Inl e \<Rightarrow> Inl e
           | Inr (missing_flag, xs') \<Rightarrow>
               if missing_flag then Inr (True, raw)
               else if length xs' = 1
               then Inr (False,
                         write_back raw rdf
                           (setitem d ''rtc_cm:subscribers'' (hd xs')))
               else Inr (False,
                         write_back raw rdf
                           (setitem d ''rtc_cm:subscribers'' (XList xs'))))
      | XStr s \<Rightarrow> if s = [] then Inr (True, raw) else Inl TypeError) = Inr (fl, raw')"
    using assms valid m rdf d subs unfolding remove_subscriber_def by simp
  have wb: "\<And>v. description_of (write_back raw rdf (setitem d ''rtc_cm:subscribers'' v))
      = Some (AList.update ''rtc_cm:subscribers'' v c)"
    using s by (simp add: setitem_def description_of_write_back)
  have wp: "description_of (write_back raw rdf (pop d ''rtc_cm:subscribers''))
      = Some (AList.delete ''rtc_cm:subscribers'' c)"
    using s by (simp add: pop_def description_of_write_back)
  show ?thesis
  proof (cases "map_of c ''rtc_cm:subscribers''")
    case None
    with s have "subs = XNone" by simp
    with body show ?thesis using valid m c None by auto
  next
    case (Some v)
    with s have sv: "subs = v" by simp
    show ?thesis
    proof (cases v)
      case XNone
      with body sv show ?thesis using valid m c Some by auto
    next
      case (XStr x2)
      with body sv show ?thesis using valid m c Some by (auto split: if_splits)
    next
      case (XDict al)
      with body sv show ?thesis using valid m c Some wp
        by (auto split: sum.splits if_splits)
    next
      case (XList xs)
      with body sv show ?thesis using valid m c Some wb
        by (auto split: sum.splits if_splits prod.splits)
    qed
  qed
qed

lemma remove_subscriber_cases [consumes 1, case_names absent single_gone single_kept plural_gone plural_kept]:
  assumes "remove_subscriber rtc e raw = Inr (fl, raw')"
  obtains
    (absent) m c where "\<not> invalid_email e" "getOwnedBy rtc (py_str e) = Inr m"
      "description_of raw = Some c" "normalize_entry (map_of c ''rtc_cm:subscribers'') = []"
      "fl" "raw' = raw"
  | (single_gone) m c al where "\<not> invalid_email e" "getOwnedBy rtc (py_str e) = Inr m"
      "description_of raw = Some c" "map_of c ''rtc_cm:subscribers'' = Some (XDict al)"
      "check_missing_subscriber m (XDict al) = Inr False" "\<not> fl"
      "description_of raw' = Some (AList.delete ''rtc_cm:subscribers'' c)"
  | (single_kept) m c al where "\<not> invalid_email e" "getOwnedBy rtc (py_str e) = Inr m"
      "description_of raw = Some c" "map_of c ''rtc_cm:subscribers'' = Some (XDict al)"
      "check_missing_subscriber m (XDict al) = Inr True" "fl" "raw' = raw"
  | (plural_gone) m c xs xs' where "\<not> invalid_email e" "getOwnedBy rtc (py_str e) = Inr m"
      "description_of raw = Some c" "map_of c ''rtc_cm:subscribers'' = Some (XList xs)"
      "missing_loop m xs xs = Inr (False, xs')" "\<not> fl"
      "description_of raw' = Some (AList.update ''rtc_cm:subscribers''
          (if length xs' = 1 then hd xs' else XList xs') c)"
  | (plural_kept) m c xs where "\<not> invalid_email e" "getOwnedBy rtc (py_str e) = Inr m"
      "description_of raw = Some c" "map_of c ''rtc_cm:subscribers'' = Some (XList xs)"
      "missing_loop m xs xs = Inr (True, xs)" "fl" "raw' = raw"
proof -
  from remove_subscriber_Inr[OF assms] obtain m c where
    v: "\<not> invalid_email e" and m: "getOwnedBy rtc (py_str e) = Inr m" and
    c: "description_of raw = Some c" and
    k: "(case map_of c ''rtc_cm:subscribers'' of
        None \<Rightarrow> fl \<and> raw' = raw
      | Some XNone \<Rightarrow> fl \<and> raw' = raw
      | Some (XDict al) \<Rightarrow> check_missing_subscriber m (XDict al) = Inr fl \<and>
           (if fl then raw' = raw
            else description_of raw' = Some (AList.delete ''rtc_cm:subscribers'' c))
      | Some (XList xs) \<Rightarrow> (\<exists>xs'. missing_loop m xs xs = Inr (fl, xs') \<and>
           (if fl then raw' = raw
            else description_of raw' = Some (AList.update ''rtc_cm:subscribers''
                    (if length xs' = 1 then hd xs' else XList xs') c)))
      | Some (XStr s) \<Rightarrow> s = [] \<and> fl \<and> raw' = raw)"
    by blast
  show thesis
  proof (cases "map_of c ''rtc_cm:subscribers''")
    case None
    with k show thesis using absent[OF v m c] by simp
  next
    case (Some x)
    show thesis
    proof (cases x)
      case XNone
      with k Some show thesis using absent[OF v m c] by simp
    next
      case (XStr s)
      with k Some show thesis using absent[OF v m c] by simp
    next
      case (XDict al)
      with k Some show thesis using single_gone[OF v m c] single_kept[OF v m c]
        by (cases fl) simp_all
    next
      case (XList xs)
      with k Some obtain xs' where l: "missing_loop m xs xs = Inr (fl, xs')"
        and r: "if fl then raw' = raw
            else description_of raw' = Some (AList.update ''rtc_cm:subscribers''
                    (if length xs' = 1 then hd xs' else XList xs') c)"
        by auto
      show thesis
      proof (cases fl)
        case True
        with l have "xs' = xs" by (auto dest: missing_loop_unchanged)
        with True l r show thesis using plural_kept[OF v m c] Some XList by simp
      next
        case False
        with l r show thesis using plural_gone[OF v m c, of xs xs'] Some XList by simp
      qed
    qed
  qed
qed

lemma remove_subscriber_flag:
  assumes "remove_subscriber rtc e raw = Inr (fl, raw')" "getOwnedBy rtc (py_str e) = Inr m"
  shows "fl = (\<not> subscribed m raw)"
  using assms(1)
proof (cases rule: remove_subscriber_cases)
  case (absent m' c)
  then show ?thesis
    by (auto simp: subscribed_def members_of_def subscribers_entry_def)
next
  case (single_gone m' c al)
  with assms(2) show ?thesis
    by (auto simp: subscribed_def members_of_def subscribers_entry_def check_missing_Inr)
next
  case (single_kept m' c al)
  with assms(2) show ?thesis
    by (auto simp: subscribed_def members_of_def subscribers_entry_def check_missing_Inr)
next
  case (plural_gone m' c xs xs')
  with assms(2) show ?thesis
    by (auto simp: subscribed_def members_of_def subscribers_entry_def dest: missing_loop_flag)
next
  case (plural_kept m' c xs)
  with assms(2) show ?thesis
    by (auto simp: subscribed_def members_of_def subscribers_entry_def dest: missing_loop_flag)
qed

lemma remove_subscriber_same:
  "remove_subscriber rtc e raw = Inr (True, raw') \<Longrightarrow> raw' = raw"
  by (erule remove_subscriber_cases) simp_all

lemma remove_subscriber_wire_ok:
  assumes "remove_subscriber rtc e raw = Inr (fl, raw')" "wire_ok raw"
  shows "wire_ok raw'"
  using assms(1)
proof (cases rule: remove_subscriber_cases)
  case (absent m c)
  with assms(2) show ?thesis by simp
next
  case (single_gone m c al)
  then show ?thesis
    by (simp add: wire_ok_def subscribers_entry_def delete_conv')
next
  case (single_kept m c al)
  with assms(2) show ?thesis by simp
next
  case (plural_gone m c xs xs')
  from missing_loop_removed[OF plural_gone(5)] obtain x where
    x: "x \<in> set xs" "xs' = remove1 x xs" by blast
  from assms(2) plural_gone(3,4) have ok: "2 \<le> length xs" "list_all is_dict xs"
    by (simp_all add: wire_ok_def subscribers_entry_def)
  from x ok have len: "length xs' = length xs - 1" and all: "list_all is_dict xs'"
    by (auto simp: length_remove1 list_all_iff dest: notin_set_remove1)
  have "entry_ok (Some (if length xs' = 1 then hd xs' else XList xs'))"
  proof (cases "length xs' = 1")
    case True
    then obtain y where "xs' = [y]" by (cases xs') auto
    with all show ?thesis by (cases y) auto
  next
    case False
    with len ok all show ?thesis by simp
  qed
  with plural_gone(7) show ?thesis
    by (simp add: wire_ok_def subscribers_entry_def update_conv')
next
  case (plural_kept m c xs)
  with assms(2) show ?thesis by simp
qed

lemma missing_loop_absent:
  "list_all is_reference xs \<Longrightarrow>
   Inr (XStr (member_url m)) \<notin> set (map (\<lambda>x. getitem x ''@rdf:resource'') xs) \<Longrightarrow>
   missing_loop m xs subs = Inr (True, subs)"
  by (induction xs)
     (auto simp: is_reference_def check_missing_subscriber_def split: sum.splits)

lemma remove_subscriber_absent:
  assumes "wire_ok raw" "list_all is_reference (members_of raw)" "\<not> invalid_email e"
    "getOwnedBy rtc (py_str e) = Inr m" "\<not> subscribed m raw"
  shows "remove_subscriber rtc e raw = Inr (True, raw)"
proof -
  from assms(1) obtain c where c: "description_of raw = Some c"
    and ok: "entry_ok (map_of c ''rtc_cm:subscribers'')"
    by (auto simp: wire_ok_def subscribers_entry_def)
  from description_ofD[OF c] obtain a b where
    s: "raw = XDict a" "map_of a ''rdf:RDF'' = Some (XDict b)" "map_of b ''rdf:Description'' = Some (XDict c)"
    by blast
  show ?thesis
  proof (cases "map_of c ''rtc_cm:subscribers''")
    case None
    with s assms(3,4) show ?thesis
      by (simp add: remove_subscriber_def dict_get_def)
  next
    case (Some v)
    show ?thesis
    proof (cases v)
      case (XDict al)
      with Some c assms(2,5) have "check_missing_subscriber m (XDict al) = Inr True"
        by (auto simp: subscribed_def members_of_def subscribers_entry_def is_reference_def
              check_missing_subscriber_def split: sum.splits)
      with s assms(3,4) Some XDict show ?thesis
        by (simp add: remove_subscriber_def dict_get_def)
    next
      case (XList xs)
      with Some c assms(2,5) have "missing_loop m xs xs = Inr (True, xs)"
        by (auto simp: subscribed_def members_of_def subscribers_entry_def
              intro!: missing_loop_absent)
      with s assms(3,4) Some XList show ?thesis
        by (simp add: remove_subscriber_def dict_get_def)
    qed (use ok Some in simp_all)
  qed
qed

section \<open>Operations as sequences of requests\<close>

text \<open>Each public operation, written out as the requests it issues and the result it
  returns, in terms of the answers of the transport.\<close>

lemma perform_subscribe_eq:
  "perform_subscribe t self tr =
     (case t tr (fetch_request self) of
        Inl e \<Rightarrow> Inl e
      | Inr resp \<Rightarrow>
          Inr (AList.update ''If-Match'' (map_of (resp_headers resp) ''etag'') (subscribe_headers self),
               content resp),
      tr @ [fetch_request self])"
  by (simp add: perform_subscribe_def send_def fetch_request_def subscribe_headers_def Let_def
        split: sum.splits)

lemma update_subscribe_eq:
  "update_subscribe t self
      (AList.update ''If-Match'' (map_of (resp_headers resp) ''etag'') (subscribe_headers self)) raw tr =
     (case t tr (write_request self resp raw) of Inl e \<Rightarrow> Inl e | Inr r \<Rightarrow> Inr (),
      tr @ [write_request self resp raw])"
  by (simp add: update_subscribe_def send_def write_request_def split: sum.splits)

lemma addSubscriber_eq:
  "addSubscriber t self email tr =
     (case t tr (fetch_request self) of
        Inl e \<Rightarrow> (Inl e, tr @ [fetch_request self])
      | Inr resp \<Rightarrow>
          (case add_subscriber (rtc_obj self) email (content resp) of
             Inl e \<Rightarrow> (Inl e, tr @ [fetch_request self])
           | Inr (existed_flag, raw_data') \<Rightarrow>
               if existed_flag then (Inr (), tr @ [fetch_request self])
               else (case t (tr @ [fetch_request self]) (write_request self resp raw_data') of
                       Inl e \<Rightarrow> Inl e | Inr r \<Rightarrow> Inr (),
                     tr @ [fetch_request self, write_request self resp raw_data'])))"
  by (simp add: addSubscriber_def perform_subscribe_eq update_subscribe_eq
        split: sum.splits prod.splits)

lemma removeSubscriber_eq:
  "removeSubscriber t self email tr =
     (case t tr (fetch_request self) of
        Inl e \<Rightarrow> (Inl e, tr @ [fetch_request self])
      | Inr resp \<Rightarrow>
          (case remove_subscriber (rtc_obj self) email (content resp) of
             Inl e \<Rightarrow> (Inl e, tr @ [fetch_request self])
           | Inr (missing_flag, raw_data') \<Rightarrow>
               if missing_flag then (Inr (), tr @ [fetch_request self])
               else (case t (tr @ [fetch_request self]) (write_request self resp raw_data') of
                       Inl e \<Rightarrow> Inl e | Inr r \<Rightarrow> Inr (),
                     tr @ [fetch_request self, write_request self resp raw_data'])))"
  by (simp add: removeSubscriber_def perform_subscribe_eq update_subscribe_eq
        split: sum.splits prod.splits)

lemma addSubscribers_eq:
  "addSubscribers t self emails_list tr =
     (case py_iter emails_list of
        None \<Rightarrow> (Inl (BadValue NotIterable), tr)
      | Some emails \<Rightarrow>
     (case t tr (fetch_request self) of
        Inl e \<Rightarrow> (Inl e, tr @ [fetch_request self])
      | Inr resp \<Rightarrow>
          (case add_loop (rtc_obj self) emails False (content resp) of
             Inl e \<Rightarrow> (Inl e, tr @ [fetch_request self])
           | Inr (existed_flags, raw_data') \<Rightarrow>
               if existed_flags then (Inr (), tr @ [fetch_request self])
               else (case t (tr @ [fetch_request self]) (write_request self resp raw_data') of
                       Inl e \<Rightarrow> Inl e | Inr r \<Rightarrow> Inr (),
                     tr @ [fetch_request self, write_request self resp raw_data']))))"
  by (simp add: addSubscribers_def perform_subscribe_eq update_subscribe_eq
        split: sum.splits prod.splits option.splits)

lemma removeSubscribers_eq:
  "removeSubscribers t self emails_list tr =
     (case py_iter emails_list of
        None \<Rightarrow> (Inl (BadValue NotIterable), tr)
      | Some emails \<Rightarrow>
     (case t tr (fetch_request self) of
        Inl e \<Rightarrow> (Inl e, tr @ [fetch_request self])
      | Inr resp \<Rightarrow>
          (case remove_loop (rtc_obj self) emails True (content resp) of
             Inl e \<Rightarrow> (Inl e, tr @ [fetch_request self])
           | Inr (missing_flags, raw_data') \<Rightarrow>
               if missing_flags then (Inr (), tr @ [fetch_request self])
               else (case t (tr @ [fetch_request self]) (write_request self resp raw_data') of
                       Inl e \<Rightarrow> Inl e | Inr r \<Rightarrow> Inr (),
                     tr @ [fetch_request self, write_request self resp raw_data']))))"
  by (simp add: removeSubscribers_def perform_subscribe_eq update_subscribe_eq
        split: sum.splits prod.splits option.splits)

section \<open>The collection that results\<close>

text \<open>The helpers and the loops of the batch operations on a well-formed snapshot, in
  terms of the sequence of members: they return, what they leave is well-formed again,
  and its members are those that adding or removing the person should give.\<close>

lemma add_loop_flag: "add_loop rtc emails False raw = Inr (fl, raw') \<Longrightarrow> \<not> fl"
proof (induction emails arbitrary: raw)
  case Nil
  then show ?case by simp
next
  case (Cons e es)
  then show ?case by (auto split: sum.splits)
qed

lemma add_loop_append:
  "add_loop rtc (pre @ es) fl raw =
     (case add_loop rtc pre fl raw of Inl e \<Rightarrow> Inl e | Inr (fl', raw') \<Rightarrow> add_loop rtc es fl' raw')"
  by (induction pre arbitrary: fl raw) (auto split: sum.splits)

lemma remove_loop_append:
  "remove_loop rtc (pre @ es) fl raw =
     (case remove_loop rtc pre fl raw of Inl e \<Rightarrow> Inl e | Inr (fl', raw') \<Rightarrow> remove_loop rtc es fl' raw')"
  by (induction pre arbitrary: fl raw) (auto split: sum.splits)

lemma add_subscriber_invalid:
  "invalid_email email \<Longrightarrow> add_subscriber rtc email raw = Inl (email_error email)"
  by (simp add: add_subscriber_def)

lemma remove_subscriber_invalid:
  "invalid_email email \<Longrightarrow> remove_subscriber rtc email raw = Inl (email_error email)"
  by (simp add: remove_subscriber_def)

lemma puts_simps:
  "puts [] = 0"
  "puts (fetch_request self # tr) = puts tr"
  "puts (write_request self resp d # tr) = Suc (puts tr)"
  by (simp_all add: puts_def fetch_request_def write_request_def)

lemma gets_simps:
  "gets [] = 0"
  "gets (fetch_request self # tr) = Suc (gets tr)"
  "gets (write_request self resp d # tr) = gets tr"
  by (simp_all add: gets_def fetch_request_def write_request_def)

lemma written_bodies_simps:
  "written_bodies [fetch_request self] = []"
  "written_bodies [fetch_request self, write_request self resp d] = [d]"
  "written_bodies [] = []"
  by (simp_all add: written_bodies_def List.map_filter_simps fetch_request_def write_request_def)

lemma add_loop_wire_ok:
  "add_loop rtc es fl raw = Inr (fl', raw') \<Longrightarrow> wire_ok raw \<Longrightarrow> wire_ok raw'"
proof (induction es arbitrary: fl raw)
  case Nil
  then show ?case by simp
next
  case (Cons e es)
  then show ?case
    by (auto split: sum.splits dest: add_subscriber_wire_ok)
qed

lemma remove_loop_wire_ok:
  "remove_loop rtc es fl raw = Inr (fl', raw') \<Longrightarrow> wire_ok raw \<Longrightarrow> wire_ok raw'"
proof (induction es arbitrary: fl raw)
  case Nil
  then show ?case by simp
next
  case (Cons e es)
  then show ?case
    by (auto split: sum.splits dest: remove_subscriber_wire_ok)
qed

lemma add_loop_in_order:
  "add_loop rtc es fl raw = Inr (fl', raw') \<Longrightarrow> in_order (add_subscriber rtc) es raw = Inr raw'"
  by (induction es arbitrary: fl raw) (auto split: sum.splits)

lemma remove_loop_in_order:
  "remove_loop rtc es fl raw = Inr (fl', raw') \<Longrightarrow> in_order (remove_subscriber rtc) es raw = Inr raw'"
  by (induction es arbitrary: fl raw) (auto split: sum.splits)

lemma missing_loop_returns:
  "list_all is_reference xs \<Longrightarrow> \<exists>fl subs'. missing_loop m xs subs = Inr (fl, subs')"
  by (induction xs)
     (auto simp: is_reference_def check_missing_subscriber_def split: sum.splits)

lemma remove_subscriber_returns:
  assumes "wire_ok raw" "list_all is_reference (members_of raw)" "resolvable rtc e"
  shows "\<exists>fl raw'. remove_subscriber rtc e raw = Inr (fl, raw')"
proof -
  from assms(3) obtain m where v: "\<not> invalid_email e" and m: "getOwnedBy rtc (py_str e) = Inr m"
    by (auto simp: resolvable_def split: sum.splits)
  from assms(1) obtain c where c: "description_of raw = Some c"
    and ok: "entry_ok (map_of c ''rtc_cm:subscribers'')"
    by (auto simp: wire_ok_def subscribers_entry_def)
  from description_ofD[OF c] obtain a b where
    s: "raw = XDict a" "map_of a ''rdf:RDF'' = Some (XDict b)" "map_of b ''rdf:Description'' = Some (XDict c)"
    by blast
  show ?thesis
  proof (cases "map_of c ''rtc_cm:subscribers''")
    case None
    with s v m show ?thesis
      by (auto simp: remove_subscriber_def dict_get_def)
  next
    case (Some x)
    show ?thesis
    proof (cases x)
      case (XDict al)
      with Some c assms(2) obtain bb where "check_missing_subscriber m (XDict al) = Inr bb"
        by (auto simp: members_of_def subscribers_entry_def is_reference_def
              check_missing_subscriber_def split: sum.splits)
      with s v m Some XDict show ?thesis
        by (auto simp: remove_subscriber_def dict_get_def)
    next
      case (XList xs)
      with Some c assms(2) have "list_all is_reference xs"
        by (simp add: members_of_def subscribers_entry_def)
      from missing_loop_returns[OF this, of m xs] obtain fl xs' where
        "missing_loop m xs xs = Inr (fl, xs')" by blast
      with s v m Some XList show ?thesis
        by (auto simp: remove_subscriber_def dict_get_def)
    qed (use ok Some in simp_all)
  qed
qed

lemma check_missing_has:
  "check_missing_subscriber m x = Inr b \<Longrightarrow> b = (\<not> has_reference m x)"
  by (auto simp: check_missing_subscriber_def has_reference_def split: sum.splits)

lemma subscribed_list_ex:
  "subscribed m raw = list_ex (has_reference m) (members_of raw)"
  by (force simp: subscribed_def has_reference_def list_ex_iff)

lemma is_reference_ref: "is_reference (ref m)"
  by (simp add: is_reference_def ref_def getitem_def)

lemma wire_ok_entry:
  assumes "wire_ok raw"
  shows "subscribers_entry raw = denormalize (members_of raw)"
proof (cases "subscribers_entry raw")
  case None
  then show ?thesis by (simp add: members_of_def)
next
  case (Some v)
  show ?thesis
  proof (cases v)
    case (XList xs)
    with assms Some have "2 \<le> length xs" by (simp add: wire_ok_def)
    then obtain a b zs where "xs = a # b # zs"
      by (cases xs; cases "tl xs") auto
    with Some XList show ?thesis by (simp add: members_of_def)
  qed (use assms Some in \<open>simp_all add: members_of_def wire_ok_def\<close>)
qed

lemma exist_loop_returns:
  "list_all is_reference xs \<Longrightarrow> \<exists>fl. exist_loop m xs = Inr fl"
  by (induction xs)
     (auto simp: is_reference_def check_exist_subscriber_def split: sum.splits)

lemma add_subscriber_returns:
  assumes "wire_ok raw" "list_all is_reference (members_of raw)" "resolvable rtc e"
  shows "\<exists>fl raw'. add_subscriber rtc e raw = Inr (fl, raw')"
proof -
  from assms(3) obtain m where v: "\<not> invalid_email e" and m: "getOwnedBy rtc (py_str e) = Inr m"
    by (auto simp: resolvable_def split: sum.splits)
  from assms(1) obtain c where c: "description_of raw = Some c"
    and ok: "entry_ok (map_of c ''rtc_cm:subscribers'')"
    by (auto simp: wire_ok_def subscribers_entry_def)
  from description_ofD[OF c] obtain a b where
    s: "raw = XDict a" "map_of a ''rdf:RDF'' = Some (XDict b)" "map_of b ''rdf:Description'' = Some (XDict c)"
    by blast
  show ?thesis
  proof (cases "map_of c ''rtc_cm:subscribers''")
    case None
    with s v m show ?thesis
      by (auto simp: add_subscriber_def dict_get_def)
  next
    case (Some x)
    show ?thesis
    proof (cases x)
      case (XDict al)
      with Some c assms(2) obtain bb where "check_exist_subscriber m (XDict al) = Inr bb"
        by (auto simp: members_of_def subscribers_entry_def is_reference_def
              check_exist_subscriber_def split: sum.splits)
      with s v m Some XDict show ?thesis
        by (auto simp: add_subscriber_def dict_get_def)
    next
      case (XList xs)
      with Some c assms(2) have "list_all is_reference xs"
        by (simp add: members_of_def subscribers_entry_def)
      from exist_loop_returns[OF this, of m] obtain fl where
        "exist_loop m xs = Inr fl" by blast
      with s v m Some XList show ?thesis
        by (auto simp: add_subscriber_def dict_get_def)
    qed (use ok Some in simp_all)
  qed
qed

lemma add_subscriber_spec:
  assumes "wire_ok raw" "list_all is_reference (members_of raw)" "\<not> invalid_email e"
    "getOwnedBy rtc (py_str e) = Inr m"
  shows "\<exists>raw'. add_subscriber rtc e raw = Inr (subscribed m raw, raw') \<and> wire_ok raw' \<and>
     members_of raw' = add_member m (members_of raw) \<and>
     list_all is_reference (members_of raw')"
proof -
  have "resolvable rtc e" using assms(3,4) by (simp add: resolvable_def)
  from add_subscriber_returns[OF assms(1,2) this] obtain fl raw' where
    step: "add_subscriber rtc e raw = Inr (fl, raw')" by blast
  from add_subscriber_flag[OF step assms(4)] have fl: "fl = subscribed m raw" .
  have w: "wire_ok raw'" using step assms(1) by (rule add_subscriber_wire_ok)
  have ms: "members_of raw' = add_member m (members_of raw)"
  proof (cases fl)
    case True
    with step have "raw' = raw" by (auto dest: add_subscriber_same)
    with True fl show ?thesis by (simp add: add_member_def subscribed_list_ex)
  next
    case False
    with step have "members_of raw' = members_of raw @ [ref m]"
      using assms(4) by (auto dest: add_subscriber_members)
    with False fl show ?thesis by (simp add: add_member_def subscribed_list_ex)
  qed
  have "list_all is_reference (members_of raw')"
    using ms assms(2) by (simp add: add_member_def is_reference_ref)
  with step fl w ms show ?thesis by auto
qed

lemma missing_loop_found:
  "missing_loop m rest (pre @ rest) = Inr (False, xs') \<Longrightarrow> \<not> list_ex (has_reference m) pre \<Longrightarrow>
     xs' = pre @ remove_member m rest"
proof (induction rest arbitrary: pre)
  case Nil
  then show ?case by simp
next
  case (Cons x rest)
  from Cons.prems(1) obtain b where b: "check_missing_subscriber m x = Inr b"
    by (auto split: sum.splits)
  from check_missing_has[OF b] have hb: "b = (\<not> has_reference m x)" .
  show ?case
  proof (cases b)
    case True
    with Cons.prems(1) b have "missing_loop m rest ((pre @ [x]) @ rest) = Inr (False, xs')"
      by simp
    moreover have "\<not> list_ex (has_reference m) (pre @ [x])"
      using Cons.prems(2) True hb by simp
    ultimately have "xs' = (pre @ [x]) @ remove_member m rest"
      by (rule Cons.IH)
    with True hb show ?thesis by simp
  next
    case False
    with hb have h: "has_reference m x" by simp
    with Cons.prems(2) have "x \<notin> set pre"
      by (auto simp: list_ex_iff)
    with Cons.prems(1) b False h show ?thesis
      by (simp add: remove1_append)
  qed
qed

lemma missing_loop_not_found:
  "missing_loop m xs subs = Inr (True, s') \<Longrightarrow> remove_member m xs = xs"
proof (induction xs)
  case Nil
  then show ?case by simp
next
  case (Cons x xs)
  from Cons.prems obtain b where b: "check_missing_subscriber m x = Inr b"
    by (auto split: sum.splits)
  from check_missing_has[OF b] Cons b show ?case
    by (cases b) (auto split: if_splits)
qed

lemma normalize_entry_dict: "is_dict y \<Longrightarrow> normalize_entry (Some y) = [y]"
  by (cases y) auto

lemma remove_subscriber_spec_members:
  assumes "remove_subscriber rtc e raw = Inr (fl, raw')" "wire_ok raw"
    "getOwnedBy rtc (py_str e) = Inr m"
  shows "members_of raw' = remove_member m (members_of raw)"
  using assms(1)
proof (cases rule: remove_subscriber_cases)
  case (absent m' c)
  then show ?thesis
    by (simp add: members_of_def subscribers_entry_def)
next
  case (single_gone m' c al)
  with assms(3) check_missing_has[OF single_gone(5)] show ?thesis
    by (simp add: members_of_def subscribers_entry_def delete_conv')
next
  case (single_kept m' c al)
  with assms(3) check_missing_has[OF single_kept(5)] show ?thesis
    by (simp add: members_of_def subscribers_entry_def)
next
  case (plural_gone m' c xs xs')
  from missing_loop_found[of m' xs "[]" xs'] plural_gone(5)
  have x: "xs' = remove_member m' xs" by simp
  from missing_loop_removed[OF plural_gone(5)] have sub: "set xs' \<subseteq> set xs"
    using set_remove1_subset by fastforce
  from assms(2) plural_gone(3,4) have "list_all is_dict xs"
    by (simp add: wire_ok_def subscribers_entry_def)
  with sub have dicts: "list_all is_dict xs'" by (auto simp: list_all_iff)
  have "members_of raw' = xs'"
  proof (cases "length xs' = 1")
    case True
    then obtain y where y: "xs' = [y]" by (cases xs') auto
    with dicts have "normalize_entry (Some y) = [y]" by (simp add: normalize_entry_dict)
    with plural_gone(7) y show ?thesis
      by (simp add: members_of_def subscribers_entry_def update_conv')
  next
    case False
    with plural_gone(7) show ?thesis
      by (simp add: members_of_def subscribers_entry_def update_conv')
  qed
  with x plural_gone(2,3,4) assms(3) show ?thesis
    by (simp add: members_of_def subscribers_entry_def)
next
  case (plural_kept m' c xs)
  with assms(3) missing_loop_not_found[OF plural_kept(5)] show ?thesis
    by (simp add: members_of_def subscribers_entry_def)
qed

lemma remove_member_subset: "set (remove_member m xs) \<subseteq> set xs"
  by (induction xs) auto


lemma remove_subscriber_spec:
  assumes "wire_ok raw" "list_all is_reference (members_of raw)" "\<not> invalid_email e"
    "getOwnedBy rtc (py_str e) = Inr m"
  shows "\<exists>raw'. remove_subscriber rtc e raw = Inr (\<not> subscribed m raw, raw') \<and> wire_ok raw' \<and>
     members_of raw' = remove_member m (members_of raw) \<and>
     list_all is_reference (members_of raw')"
proof -
  have "resolvable rtc e" using assms(3,4) by (simp add: resolvable_def)
  from remove_subscriber_returns[OF assms(1,2) this] obtain fl raw' where
    step: "remove_subscriber rtc e raw = Inr (fl, raw')" by blast
  from remove_subscriber_flag[OF step assms(4)] have fl: "fl = (\<not> subscribed m raw)" .
  have w: "wire_ok raw'" using step assms(1) by (rule remove_subscriber_wire_ok)
  have ms: "members_of raw' = remove_member m (members_of raw)"
    using step assms(1,4) by (rule remove_subscriber_spec_members)
  have "list_all is_reference (members_of raw')"
    using ms assms(2) remove_member_subset[of m "members_of raw"] by (auto simp: list_all_iff)
  with step fl w ms show ?thesis by auto
qed

lemma add_loop_spec:
  assumes "list_all (resolvable rtc) es" "wire_ok raw" "list_all is_reference (members_of raw)"
  shows "\<exists>fl raw'. add_loop rtc es acc raw = Inr (fl, raw') \<and> wire_ok raw' \<and>
     members_of raw' = add_all rtc es (members_of raw)"
  using assms
proof (induction es arbitrary: acc raw)
  case Nil
  then show ?case by simp
next
  case (Cons e es)
  from Cons.prems(1) have r: "resolvable rtc e" and rs: "list_all (resolvable rtc) es"
    by simp_all
  from r obtain m where v: "\<not> invalid_email e" and m: "getOwnedBy rtc (py_str e) = Inr m"
    by (auto simp: resolvable_def split: sum.splits)
  from add_subscriber_spec[OF Cons.prems(2,3) v m] obtain raw1 where
    step: "add_subscriber rtc e raw = Inr (subscribed m raw, raw1)" and w1: "wire_ok raw1"
    and m1: "members_of raw1 = add_member m (members_of raw)"
    and i1: "list_all is_reference (members_of raw1)"
    by blast
  from Cons.IH[OF rs w1 i1, of "acc \<and> subscribed m raw"] step m m1 show ?case
    by auto
qed

lemma remove_loop_spec:
  assumes "list_all (resolvable rtc) es" "wire_ok raw" "list_all is_reference (members_of raw)"
  shows "\<exists>raw'. remove_loop rtc es acc raw =
       Inr (acc \<and> list_all (absent_email rtc raw) es, raw') \<and> wire_ok raw' \<and>
     members_of raw' = remove_all rtc es (members_of raw)"
  using assms
proof (induction es arbitrary: acc raw)
  case Nil
  then show ?case by simp
next
  case (Cons e es)
  from Cons.prems(1) have r: "resolvable rtc e" and rs: "list_all (resolvable rtc) es"
    by simp_all
  from r obtain m where v: "\<not> invalid_email e" and m: "getOwnedBy rtc (py_str e) = Inr m"
    by (auto simp: resolvable_def split: sum.splits)
  from remove_subscriber_spec[OF Cons.prems(2,3) v m] obtain raw1 where
    step: "remove_subscriber rtc e raw = Inr (\<not> subscribed m raw, raw1)" and w1: "wire_ok raw1"
    and m1: "members_of raw1 = remove_member m (members_of raw)"
    and i1: "list_all is_reference (members_of raw1)"
    by blast
  have a: "absent_email rtc raw e = (\<not> subscribed m raw)"
    by (simp add: absent_email_def m)
  from Cons.IH[OF rs w1 i1, of "acc \<and> \<not> subscribed m raw"] obtain raw' where
    rest: "remove_loop rtc es (acc \<and> \<not> subscribed m raw) raw1 =
       Inr ((acc \<and> \<not> subscribed m raw) \<and> list_all (absent_email rtc raw1) es, raw')"
    and w': "wire_ok raw'" and m': "members_of raw' = remove_all rtc es (members_of raw1)"
    by blast
  show ?case
  proof (cases "subscribed m raw")
    case True
    with rest step a w' m' m m1 show ?thesis by auto
  next
    case False
    with step have "raw1 = raw" by (auto dest: remove_subscriber_same)
    with rest step a w' m' m m1 False show ?thesis by auto
  qed
qed

text \<open>Operations on a well-formed snapshot.\<close>

lemma addSubscriber_result:
  assumes "t tr (fetch_request self) = Inr resp" "wire_ok (content resp)"
    "list_all is_reference (members_of (content resp))" "\<not> invalid_email email"
    "getOwnedBy (rtc_obj self) (py_str email) = Inr m"
  shows "\<exists>d. wire_ok d \<and> members_of d = add_member m (members_of (content resp)) \<and>
     drop (length tr) (snd (addSubscriber t self email tr)) =
       (if subscribed m (content resp) then [fetch_request self]
        else [fetch_request self, write_request self resp d])"
proof -
  from add_subscriber_spec[OF assms(2-5)] obtain d where
    "add_subscriber (rtc_obj self) email (content resp) = Inr (subscribed m (content resp), d)"
    "wire_ok d" "members_of d = add_member m (members_of (content resp))"
    by blast
  with assms(1) show ?thesis
    by (auto simp: addSubscriber_eq split: sum.splits)
qed

lemma removeSubscriber_result:
  assumes "t tr (fetch_request self) = Inr resp" "wire_ok (content resp)"
    "list_all is_reference (members_of (content resp))" "\<not> invalid_email email"
    "getOwnedBy (rtc_obj self) (py_str email) = Inr m"
  shows "\<exists>d. wire_ok d \<and> members_of d = remove_member m (members_of (content resp)) \<and>
     drop (length tr) (snd (removeSubscriber t self email tr)) =
       (if subscribed m (content resp) then [fetch_request self, write_request self resp d]
        else [fetch_request self])"
proof -
  from remove_subscriber_spec[OF assms(2-5)] obtain d where
    "remove_subscriber (rtc_obj self) email (content resp) = Inr (\<not> subscribed m (content resp), d)"
    "wire_ok d" "members_of d = remove_member m (members_of (content resp))"
    by blast
  with assms(1) show ?thesis
    by (auto simp: removeSubscriber_eq split: sum.splits)
qed

lemma addSubscribers_result:
  assumes "t tr (fetch_request self) = Inr resp" "wire_ok (content resp)"
    "list_all is_reference (members_of (content resp))"
    "py_iter emails_list = Some emails" "list_all (resolvable (rtc_obj self)) emails"
  shows "\<exists>d. wire_ok d \<and> members_of d = add_all (rtc_obj self) emails (members_of (content resp)) \<and>
     in_order (add_subscriber (rtc_obj self)) emails (content resp) = Inr d \<and>
     drop (length tr) (snd (addSubscribers t self emails_list tr)) =
       [fetch_request self, write_request self resp d]"
proof -
  from add_loop_spec[OF assms(5,2,3), of False] obtain fl d where
    l: "add_loop (rtc_obj self) emails False (content resp) = Inr (fl, d)"
    and d: "wire_ok d" "members_of d = add_all (rtc_obj self) emails (members_of (content resp))"
    by blast
  from add_loop_flag[OF l] have "\<not> fl" .
  with l d assms(1,4) add_loop_in_order[OF l] show ?thesis
    by (auto simp: addSubscribers_eq split: sum.splits)
qed

lemma removeSubscribers_result:
  assumes "t tr (fetch_request self) = Inr resp" "wire_ok (content resp)"
    "list_all is_reference (members_of (content resp))"
    "py_iter emails_list = Some emails" "list_all (resolvable (rtc_obj self)) emails"
  shows "\<exists>d. wire_ok d \<and> members_of d = remove_all (rtc_obj self) emails (members_of (content resp)) \<and>
     in_order (remove_subscriber (rtc_obj self)) emails (content resp) = Inr d \<and>
     drop (length tr) (snd (removeSubscribers t self emails_list tr)) =
       (if list_all (absent_email (rtc_obj self) (content resp)) emails then [fetch_request self]
        else [fetch_request self, write_request self resp d])"
proof -
  from remove_loop_spec[OF assms(5,2,3), of True] obtain d where
    l: "remove_loop (rtc_obj self) emails True (content resp) =
         Inr (True \<and> list_all (absent_email (rtc_obj self) (content resp)) emails, d)"
    and d: "wire_ok d" "members_of d = remove_all (rtc_obj self) emails (members_of (content resp))"
    by blast
  with assms(1,4) remove_loop_in_order[OF l] show ?thesis
    by (auto simp: removeSubscribers_eq split: sum.splits)
qed

lemma entries_written:
  assumes "wire_ok d"
  shows "map subscribers_entry (written_bodies [fetch_request self, write_request self resp d]) =
      [denormalize (members_of d)]"
    "map subscribers_entry (written_bodies [fetch_request self]) = []"
  using wire_ok_entry[OF assms] by (simp_all add: written_bodies_simps)

section \<open>Claims\<close>

subsection \<open>C1: a batch add of members that are all present\<close>

lemma addSubscribers_writes:
  assumes "addSubscribers t self emails_list tr = (Inr (), tr')"
  shows "puts (drop (length tr) tr') = 1"
  using assms
  by (auto simp: addSubscribers_eq puts_def write_request_def fetch_request_def
        split: option.splits sum.splits prod.splits if_splits dest: add_loop_flag)

text \<open>
  C1. Claimed: a batch \<^verbatim>\<open>addSubscribers\<close> call in which every email already identifies
  a subscriber issues no write, and a call with at least one new email issues exactly
  one write. The accumulator \<^verbatim>\<open>existed_flags\<close> starts as \<^verbatim>\<open>False\<close> and is only ever
  combined with \<^verbatim>\<open>and\<close>, so it is \<^verbatim>\<open>False\<close> when the loop ends (\<open>add_loop_flag\<close>) and
  every call that returns has written once (\<open>addSubscribers_writes\<close>). Here the work
  item has the single subscriber \<^verbatim>\<open>a@x\<close>, the batch is \<^verbatim>\<open>["a@x"]\<close>, the call returns
  normally and one \<^verbatim>\<open>PUT\<close> has been issued.
\<close>

theorem addSubscribers_all_present_writes:
  "getOwnedBy (rtc_obj demo_item) ''a@x'' = Inr (person ''a@x'') \<and>
   subscribed (person ''a@x'') (snapshot [(''rtc_cm:subscribers'', ref (person ''a@x''))]) \<and>
   fst (addSubscribers (store_server (snapshot [(''rtc_cm:subscribers'', ref (person ''a@x''))]))
          demo_item (PyList [PyStr ''a@x'']) []) = Inr () \<and>
   puts (snd (addSubscribers (store_server (snapshot [(''rtc_cm:subscribers'', ref (person ''a@x''))]))
          demo_item (PyList [PyStr ''a@x'']) [])) = 1"
  by code_simp

subsection \<open>C2: an invalid email\<close>

text \<open>
  C2, as stated: an email that is not a string or has no \<^verbatim>\<open>@\<close> raises \<^verbatim>\<open>BadValue\<close>
  before the transport is invoked at all. The public operations call
  \<^verbatim>\<open>_perform_subscribe\<close> first and only then the helper that checks the email: on
  the email \<^verbatim>\<open>nobody\<close> the error is raised, and the trace already holds the fetch.
\<close>

theorem invalid_email_fetches_first:
  "invalid_email (PyStr ''nobody'') \<and>
   addSubscriber (store_server (snapshot [])) demo_item (PyStr ''nobody'') [] =
     (Inl (BadValue (InvalidEmail (PyStr ''nobody''))), [fetch_request demo_item]) \<and>
   gets (snd (addSubscriber (store_server (snapshot [])) demo_item (PyStr ''nobody'') [])) = 1 \<and>
   snd (addSubscriber (store_server (snapshot [])) demo_item (PyStr ''nobody'') []) \<noteq> []"
  by code_simp

text \<open>
  C2, amended: for an invalid email the transport is invoked exactly once, with the
  initial \<^verbatim>\<open>GET\<close>, and no write is ever attempted. If that request fails its error
  surfaces; otherwise the call ends in the error of the guard, which is \<^verbatim>\<open>BadValue\<close>
  for every invalid email that is not a tuple: at once in a single-email call, and in a
  batch call whose list holds the invalid email after the emails \<open>pre\<close> once the loop
  has processed \<open>pre\<close> without an error of its own. (For a tuple the formatting of the
  message decides what is raised, see \<open>email_error\<close>.)
\<close>

theorem invalid_email_after_fetch:
  assumes "invalid_email email"
  shows
   "addSubscriber t self email tr =
      (case t tr (fetch_request self) of
         Inl e \<Rightarrow> Inl e
       | Inr resp \<Rightarrow> Inl (email_error email),
       tr @ [fetch_request self]) \<and>
    removeSubscriber t self email tr =
      (case t tr (fetch_request self) of
         Inl e \<Rightarrow> Inl e
       | Inr resp \<Rightarrow> Inl (email_error email),
       tr @ [fetch_request self]) \<and>
    (py_iter emails_list = Some (pre @ email # post) \<longrightarrow>
     addSubscribers t self emails_list tr =
      (case t tr (fetch_request self) of
         Inl e \<Rightarrow> Inl e
       | Inr resp \<Rightarrow>
           (case add_loop (rtc_obj self) pre False (content resp) of
              Inl e \<Rightarrow> Inl e
            | Inr r \<Rightarrow> Inl (email_error email)),
       tr @ [fetch_request self]) \<and>
     removeSubscribers t self emails_list tr =
      (case t tr (fetch_request self) of
         Inl e \<Rightarrow> Inl e
       | Inr resp \<Rightarrow>
           (case remove_loop (rtc_obj self) pre True (content resp) of
              Inl e \<Rightarrow> Inl e
            | Inr r \<Rightarrow> Inl (email_error email)),
       tr @ [fetch_request self])) \<and>
    (\<not> is_tuple email \<longrightarrow> email_error email = BadValue (InvalidEmail email))"
proof -
  have single_add: "addSubscriber t self email tr =
      (case t tr (fetch_request self) of
         Inl e \<Rightarrow> Inl e
       | Inr resp \<Rightarrow> Inl (email_error email),
       tr @ [fetch_request self])"
    using assms by (simp add: addSubscriber_eq add_subscriber_invalid split: sum.splits)
  have single_remove: "removeSubscriber t self email tr =
      (case t tr (fetch_request self) of
         Inl e \<Rightarrow> Inl e
       | Inr resp \<Rightarrow> Inl (email_error email),
       tr @ [fetch_request self])"
    using assms by (simp add: removeSubscriber_eq remove_subscriber_invalid split: sum.splits)
  have loop_add: "add_loop rtc (pre @ email # post) fl raw =
      (case add_loop rtc pre fl raw of
         Inl e \<Rightarrow> Inl e
       | Inr r \<Rightarrow> Inl (email_error email))" for rtc fl raw
    using assms by (simp add: add_loop_append add_subscriber_invalid split: sum.splits)
  have loop_remove: "remove_loop rtc (pre @ email # post) fl raw =
      (case remove_loop rtc pre fl raw of
         Inl e \<Rightarrow> Inl e
       | Inr r \<Rightarrow> Inl (email_error email))" for rtc fl raw
    using assms by (simp add: remove_loop_append remove_subscriber_invalid split: sum.splits)
  have batch_add: "addSubscribers t self emails_list tr =
      (case t tr (fetch_request self) of
         Inl e \<Rightarrow> Inl e
       | Inr resp \<Rightarrow>
           (case add_loop (rtc_obj self) pre False (content resp) of
              Inl e \<Rightarrow> Inl e
            | Inr r \<Rightarrow> Inl (email_error email)),
       tr @ [fetch_request self])"
    if "py_iter emails_list = Some (pre @ email # post)"
    using that by (simp add: addSubscribers_eq loop_add split: sum.splits)
  have batch_remove: "removeSubscribers t self emails_list tr =
      (case t tr (fetch_request self) of
         Inl e \<Rightarrow> Inl e
       | Inr resp \<Rightarrow>
           (case remove_loop (rtc_obj self) pre True (content resp) of
              Inl e \<Rightarrow> Inl e
            | Inr r \<Rightarrow> Inl (email_error email)),
       tr @ [fetch_request self])"
    if "py_iter emails_list = Some (pre @ email # post)"
    using that by (simp add: removeSubscribers_eq loop_remove split: sum.splits)
  have kind: "\<not> is_tuple email \<longrightarrow> email_error email = BadValue (InvalidEmail email)"
    by (cases email) simp_all
  show ?thesis
    using single_add single_remove batch_add batch_remove kind by blast
qed

theorem invalid_email_after_fetch_witness:
  "invalid_email (PyStr ''nobody'') \<and> invalid_email PyNone \<and>
   invalid_email (PyOther ''3.5'' (Some 3)) \<and> invalid_email (PyTuple ''()'' []) \<and>
   py_iter (PyList [PyStr ''a@x'', PyInt 5, PyStr ''b@x'']) = Some ([PyStr ''a@x''] @ PyInt 5 # [PyStr ''b@x'']) \<and>
   addSubscriber (store_server (snapshot [])) demo_item (PyStr ''nobody'') [] =
     (Inl (BadValue (InvalidEmail (PyStr ''nobody''))), [fetch_request demo_item]) \<and>
   removeSubscriber (store_server (snapshot [])) demo_item (PyStr ''nobody'') [] =
     (Inl (BadValue (InvalidEmail (PyStr ''nobody''))), [fetch_request demo_item]) \<and>
   addSubscriber (store_server (snapshot [])) demo_item PyNone [] =
     (Inl (BadValue (InvalidEmail PyNone)), [fetch_request demo_item]) \<and>
   removeSubscriber (store_server (snapshot [])) demo_item (PyOther ''3.5'' (Some 3)) [] =
     (Inl (BadValue (InvalidEmail (PyOther ''3.5'' (Some 3)))), [fetch_request demo_item]) \<and>
   addSubscriber (store_server (snapshot [])) demo_item (PyTuple ''()'' []) [] =
     (Inl TypeError, [fetch_request demo_item]) \<and>
   addSubscribers (store_server (snapshot [])) demo_item
       (PyList [PyStr ''a@x'', PyInt 5, PyStr ''b@x'']) [] =
     (Inl (BadValue (InvalidEmail (PyInt 5))), [fetch_request demo_item]) \<and>
   removeSubscribers (store_server (snapshot [])) demo_item
       (PyList [PyStr ''a@x'', PyInt 5, PyStr ''b@x'']) [] =
     (Inl (BadValue (InvalidEmail (PyInt 5))), [fetch_request demo_item])"
proof -
  let ?S = "store_server (snapshot [])"
  let ?L = "PyList [PyStr ''a@x'', PyInt 5, PyStr ''b@x'']"
  have h: "invalid_email (PyStr ''nobody'')" "invalid_email PyNone"
    "invalid_email (PyOther ''3.5'' (Some 3))" "invalid_email (PyTuple ''()'' [])"
    "invalid_email (PyInt 5)"
    by simp_all
  have n: "\<not> is_tuple (PyStr ''nobody'')" "\<not> is_tuple PyNone"
    "\<not> is_tuple (PyOther ''3.5'' (Some 3))" "\<not> is_tuple (PyInt 5)"
    by simp_all
  have i: "py_iter ?L = Some ([PyStr ''a@x''] @ PyInt 5 # [PyStr ''b@x''])" by simp
  have a: "add_loop (rtc_obj demo_item) [PyStr ''a@x''] False (snapshot []) \<noteq> Inl e" for e
    by code_simp
  have r: "remove_loop (rtc_obj demo_item) [PyStr ''a@x''] True (snapshot []) \<noteq> Inl e" for e
    by code_simp
  have g: "?S [] (fetch_request demo_item)
     = Inr \<lparr>content = snapshot [], resp_headers = [(''etag'', ''v'')]\<rparr>"
    by (simp add: store_server_def fetch_request_def)
  from invalid_email_after_fetch[OF h(1), of ?S demo_item "[]"] n(1) g
  have c1: "addSubscriber ?S demo_item (PyStr ''nobody'') [] =
     (Inl (BadValue (InvalidEmail (PyStr ''nobody''))), [fetch_request demo_item])"
    and c2: "removeSubscriber ?S demo_item (PyStr ''nobody'') [] =
     (Inl (BadValue (InvalidEmail (PyStr ''nobody''))), [fetch_request demo_item])"
    by simp_all
  from invalid_email_after_fetch[OF h(2), of ?S demo_item "[]"] n(2) g
  have c3: "addSubscriber ?S demo_item PyNone [] =
     (Inl (BadValue (InvalidEmail PyNone)), [fetch_request demo_item])"
    by simp
  from invalid_email_after_fetch[OF h(3), of ?S demo_item "[]"] n(3) g
  have c4: "removeSubscriber ?S demo_item (PyOther ''3.5'' (Some 3)) [] =
     (Inl (BadValue (InvalidEmail (PyOther ''3.5'' (Some 3)))), [fetch_request demo_item])"
    by simp
  from invalid_email_after_fetch[OF h(4), of ?S demo_item "[]"] g
  have c5: "addSubscriber ?S demo_item (PyTuple ''()'' []) [] =
     (Inl TypeError, [fetch_request demo_item])"
    by simp
  from invalid_email_after_fetch[OF h(5), of ?S demo_item "[]" ?L "[PyStr ''a@x'']" "[PyStr ''b@x'']"]
    n(4) i a r g
  have c6: "addSubscribers ?S demo_item ?L [] =
     (Inl (BadValue (InvalidEmail (PyInt 5))), [fetch_request demo_item])"
    and c7: "removeSubscribers ?S demo_item ?L [] =
     (Inl (BadValue (InvalidEmail (PyInt 5))), [fetch_request demo_item])"
    by (simp_all split: sum.splits)
  show ?thesis
    by (intro conjI h(1-4) i c1 c2 c3 c4 c5 c6 c7)
qed

subsection \<open>C3: a comment that the server does not have\<close>

lemma getCommentByID_eq:
  "getCommentByID t self comment_id tr =
     (case check_comment_id comment_id of
        Inl e \<Rightarrow> (Inl (BadValue InvalidCommentId), tr)
      | Inr i \<Rightarrow>
          (case t tr (comment_request self i) of
             Inl e \<Rightarrow> Inl (if e = HTTPError then BadValue (CommentMissing i) else e)
           | Inr resp \<Rightarrow>
               Inr \<lparr>c_url = comment_by_id_url self i,
                    c_raw_data = content resp\<rparr>,
           tr @ [comment_request self i]))"
proof (cases comment_id)
  case (PyStr s)
  then show ?thesis
    by (auto simp: getCommentByID_def Comment_def send_def comment_request_def comment_by_id_url_def
          split: sum.splits option.splits)
qed (auto simp: getCommentByID_def Comment_def send_def comment_request_def comment_by_id_url_def split: sum.splits)

text \<open>
  C3, as stated: when the transport reports an HTTP error for the comment,
  \<^verbatim>\<open>getCommentByID\<close> raises an error of the \<^verbatim>\<open>NotFound\<close> kind. The \<^verbatim>\<open>except HTTPError\<close>
  clause raises \<^verbatim>\<open>exception.BadValue\<close>: for comment 7 on a server that answers with
  an HTTP error the result is \<^verbatim>\<open>BadValue\<close>, not \<^verbatim>\<open>NotFound\<close>.
\<close>

theorem comment_404_is_BadValue:
  "failing_server [] (comment_request demo_item 7) = Inl HTTPError \<and>
   getCommentByID failing_server demo_item (PyInt 7) [] =
     (Inl (BadValue (CommentMissing 7)), [comment_request demo_item 7]) \<and>
   fst (getCommentByID failing_server demo_item (PyInt 7) []) \<noteq> Inl NotFound"
  by code_simp

text \<open>
  C3, amended: for every accepted comment id for which the transport reports an HTTP
  error, \<^verbatim>\<open>getCommentByID\<close> raises \<^verbatim>\<open>BadValue\<close> ("Comment ... does not exist") after
  the one request for that comment.
\<close>

theorem getCommentByID_http_error:
  assumes "check_comment_id comment_id = Inr i"
    and "t tr (comment_request self i) = Inl HTTPError"
  shows "getCommentByID t self comment_id tr =
     (Inl (BadValue (CommentMissing i)), tr @ [comment_request self i])"
  using assms by (simp add: getCommentByID_eq)

theorem getCommentByID_http_error_witness:
  "check_comment_id (PyStr ''12'') = Inr 12 \<and>
   failing_server [] (comment_request demo_item 12) = Inl HTTPError \<and>
   getCommentByID failing_server demo_item (PyStr ''12'') [] =
     (Inl (BadValue (CommentMissing 12)), [comment_request demo_item 12])"
proof -
  have c: "check_comment_id (PyStr ''12'') = Inr 12" by code_simp
  have f: "failing_server [] (comment_request demo_item 12) = Inl HTTPError"
    by (simp add: failing_server_def)
  from getCommentByID_http_error[where t = failing_server and tr = "[]", OF c f] c f
  show ?thesis by simp
qed

subsection \<open>C4: which comment identifiers are rejected\<close>

text \<open>
  C4, as stated: \<^verbatim>\<open>BadValue\<close> is raised exactly for identifiers that are booleans or
  cannot be coerced to an integer, and it is raised before any network call. The
  string \<^verbatim>\<open>"3"\<close> is integer-valued and accepted, yet on a server that reports an HTTP
  error the call raises \<^verbatim>\<open>BadValue\<close>, after the request has been issued. And the float
  \<^verbatim>\<open>3.0\<close> is no boolean and \<^verbatim>\<open>int\<close> coerces it to 3, yet it is rejected with
  \<^verbatim>\<open>BadValue\<close>: only strings are coerced, and what is then not an integer is refused.
\<close>

theorem valid_id_BadValue_after_fetch:
  "\<not> spec_rejects (PyStr ''3'') \<and>
   getCommentByID failing_server demo_item (PyStr ''3'') [] =
     (Inl (BadValue (CommentMissing 3)), [comment_request demo_item 3]) \<and>
   snd (getCommentByID failing_server demo_item (PyStr ''3'') []) \<noteq> [] \<and>
   \<not> is_boolean (PyOther ''3.0'' (Some 3)) \<and>
   spec_coerce (PyOther ''3.0'' (Some 3)) = Some 3 \<and>
   \<not> spec_rejects (PyOther ''3.0'' (Some 3)) \<and>
   getCommentByID failing_server demo_item (PyOther ''3.0'' (Some 3)) [] =
     (Inl (BadValue InvalidCommentId), [])"
  by code_simp

lemma check_comment_id_spec:
  "check_comment_id v = (if rejected_id v then Inl ValueError else Inr (the (spec_coerce v)))"
  by (cases v) (auto simp: rejected_id_def spec_rejects_def split: option.splits)

lemma accepted_id_coerced:
  "\<not> rejected_id v \<Longrightarrow> \<exists>i. spec_coerce v = Some i"
  by (auto simp: rejected_id_def spec_rejects_def)

text \<open>
  C4, amended: the validation error (\<^verbatim>\<open>BadValue\<close>, "Please input valid comment id") is
  raised, before any network call, exactly for identifiers that are booleans, strings
  that \<^verbatim>\<open>int\<close> cannot parse, or objects that are neither integers nor strings (a float
  or a \<^verbatim>\<open>Decimal\<close> among them, although \<^verbatim>\<open>int\<close> would coerce it). Every other
  identifier, an integer-valued string or an integer such as -1, is accepted: one
  request goes out for the comment of the coerced number, and the call returns the
  comment, raises \<^verbatim>\<open>BadValue\<close> ("Comment ... does not exist") if the transport reports an
  HTTP error, or lets another transport error surface.
\<close>

theorem getCommentByID_validation:
  "(rejected_id v \<longrightarrow> getCommentByID t self v tr = (Inl (BadValue InvalidCommentId), tr)) \<and>
   (\<not> rejected_id v \<longrightarrow>
      (\<exists>i. spec_coerce v = Some i \<and>
           getCommentByID t self v tr =
             (case t tr (comment_request self i) of
                Inl e \<Rightarrow> Inl (if e = HTTPError then BadValue (CommentMissing i) else e)
              | Inr resp \<Rightarrow>
                  Inr \<lparr>c_url = comment_by_id_url self i,
                       c_raw_data = content resp\<rparr>,
              tr @ [comment_request self i])))"
proof (cases "rejected_id v")
  case True
  then show ?thesis by (simp add: getCommentByID_eq check_comment_id_spec)
next
  case False
  then obtain i where i: "spec_coerce v = Some i"
    by (auto dest: accepted_id_coerced)
  with False have "check_comment_id v = Inr i"
    by (simp add: check_comment_id_spec)
  with False i show ?thesis by (simp add: getCommentByID_eq)
qed

theorem getCommentByID_validation_witness:
  "rejected_id (PyStr ''abc'') \<and> rejected_id (PyBool True) \<and>
   rejected_id (PyOther ''3.0'' (Some 3)) \<and> rejected_id PyNone \<and>
   \<not> rejected_id (PyStr ''12'') \<and> \<not> rejected_id (PyInt (- 1)) \<and>
   getCommentByID (store_server XNone) demo_item (PyStr ''abc'') [] =
     (Inl (BadValue InvalidCommentId), []) \<and>
   getCommentByID (store_server XNone) demo_item (PyBool True) [] =
     (Inl (BadValue InvalidCommentId), []) \<and>
   getCommentByID (store_server XNone) demo_item (PyOther ''3.0'' (Some 3)) [] =
     (Inl (BadValue InvalidCommentId), []) \<and>
   getCommentByID (store_server XNone) demo_item PyNone [] =
     (Inl (BadValue InvalidCommentId), []) \<and>
   getCommentByID (store_server XNone) demo_item (PyStr ''12'') [] =
     (Inr \<lparr>c_url = ''w/7/rtc_cm:comments/12'', c_raw_data = XNone\<rparr>,
      [GET ''w/7/rtc_cm:comments/12'' []]) \<and>
   getCommentByID (store_server XNone) demo_item (PyInt (- 1)) [] =
     (Inr \<lparr>c_url = ''w/7/rtc_cm:comments/-1'', c_raw_data = XNone\<rparr>,
      [GET ''w/7/rtc_cm:comments/-1'' []])"
proof -
  have r: "rejected_id (PyStr ''abc'')" "rejected_id (PyBool True)"
    "rejected_id (PyOther ''3.0'' (Some 3))" "rejected_id PyNone"
    "\<not> rejected_id (PyStr ''12'')" "\<not> rejected_id (PyInt (- 1))"
    by code_simp+
  have c: "spec_coerce (PyStr ''12'') = Some 12" "spec_coerce (PyInt (- 1)) = Some (- 1)"
    by code_simp+
  have q: "comment_request demo_item 12 = GET ''w/7/rtc_cm:comments/12'' []"
    "comment_request demo_item (- 1) = GET ''w/7/rtc_cm:comments/-1'' []"
    by code_simp+
  have u: "comment_by_id_url demo_item 12 = ''w/7/rtc_cm:comments/12''"
    "comment_by_id_url demo_item (- 1) = ''w/7/rtc_cm:comments/-1''"
    by code_simp+
  show ?thesis
    using getCommentByID_validation[of "PyStr ''abc''" "store_server XNone" demo_item "[]"]
      getCommentByID_validation[of "PyBool True" "store_server XNone" demo_item "[]"]
      getCommentByID_validation[of "PyOther ''3.0'' (Some 3)" "store_server XNone" demo_item "[]"]
      getCommentByID_validation[of PyNone "store_server XNone" demo_item "[]"]
      getCommentByID_validation[of "PyStr ''12''" "store_server XNone" demo_item "[]"]
      getCommentByID_validation[of "PyInt (- 1)" "store_server XNone" demo_item "[]"]
      r c
    by (simp add: q u store_server_def)
qed

subsection \<open>C5: the shape of what is written\<close>

lemma addSubscriber_written:
  assumes "\<forall>resp. t tr (fetch_request self) = Inr resp \<longrightarrow> wire_ok (content resp)"
  shows "list_all wire_ok (written_bodies (drop (length tr) (snd (addSubscriber t self email tr))))"
  using assms
  by (auto simp: addSubscriber_eq written_bodies_simps split: sum.splits
        dest: add_subscriber_wire_ok)

lemma removeSubscriber_written:
  assumes "\<forall>resp. t tr (fetch_request self) = Inr resp \<longrightarrow> wire_ok (content resp)"
  shows "list_all wire_ok (written_bodies (drop (length tr) (snd (removeSubscriber t self email tr))))"
  using assms
  by (auto simp: removeSubscriber_eq written_bodies_simps split: sum.splits
        dest: remove_subscriber_wire_ok)

lemma addSubscribers_written:
  assumes "\<forall>resp. t tr (fetch_request self) = Inr resp \<longrightarrow> wire_ok (content resp)"
  shows "list_all wire_ok (written_bodies (drop (length tr) (snd (addSubscribers t self emails_list tr))))"
  using assms
  by (auto simp: addSubscribers_eq written_bodies_simps split: sum.splits option.splits
        dest: add_loop_wire_ok)

lemma removeSubscribers_written:
  assumes "\<forall>resp. t tr (fetch_request self) = Inr resp \<longrightarrow> wire_ok (content resp)"
  shows "list_all wire_ok (written_bodies (drop (length tr) (snd (removeSubscribers t self emails_list tr))))"
  using assms
  by (auto simp: removeSubscribers_eq written_bodies_simps split: sum.splits option.splits
        dest: remove_loop_wire_ok)

text \<open>
  C5. On a fetched snapshot that follows the wire convention, with members that carry
  references, each of \<^verbatim>\<open>addSubscriber\<close>, \<^verbatim>\<open>removeSubscriber\<close>, \<^verbatim>\<open>addSubscribers\<close> and
  \<^verbatim>\<open>removeSubscribers\<close> writes, when the collection changes (a batch add always), the
  entry that the convention gives for the collection that should result: the fetched
  members with the new person appended, or with the member of the person removed. With
  no member left the entry is deleted, one member is written as the bare mapping, two
  or more as a list; nothing is written when a single-email call or a batch remove
  changes nothing. Every document written is well-formed.
\<close>

theorem written_shape_follows_convention:
  assumes "t tr (fetch_request self) = Inr resp" "wire_ok (content resp)"
    "list_all is_reference (members_of (content resp))"
  shows
   "(\<not> invalid_email email \<and> getOwnedBy (rtc_obj self) (py_str email) = Inr m \<longrightarrow>
      map subscribers_entry
          (written_bodies (drop (length tr) (snd (addSubscriber t self email tr)))) =
        (if subscribed m (content resp) then []
         else [denormalize (members_of (content resp) @ [ref m])]) \<and>
      map subscribers_entry
          (written_bodies (drop (length tr) (snd (removeSubscriber t self email tr)))) =
        (if subscribed m (content resp)
         then [denormalize (remove_member m (members_of (content resp)))]
         else [])) \<and>
    (py_iter emails_list = Some emails \<and> list_all (resolvable (rtc_obj self)) emails \<longrightarrow>
      map subscribers_entry
          (written_bodies (drop (length tr) (snd (addSubscribers t self emails_list tr)))) =
        [denormalize (add_all (rtc_obj self) emails (members_of (content resp)))] \<and>
      map subscribers_entry
          (written_bodies (drop (length tr) (snd (removeSubscribers t self emails_list tr)))) =
        (if list_all (absent_email (rtc_obj self) (content resp)) emails then []
         else [denormalize (remove_all (rtc_obj self) emails (members_of (content resp)))])) \<and>
    list_all wire_ok (written_bodies (drop (length tr) (snd (addSubscriber t self email tr)))) \<and>
    list_all wire_ok (written_bodies (drop (length tr) (snd (removeSubscriber t self email tr)))) \<and>
    list_all wire_ok (written_bodies (drop (length tr) (snd (addSubscribers t self emails_list tr)))) \<and>
    list_all wire_ok (written_bodies (drop (length tr) (snd (removeSubscribers t self emails_list tr))))"
proof -
  have single: "map subscribers_entry
          (written_bodies (drop (length tr) (snd (addSubscriber t self email tr)))) =
        (if subscribed m (content resp) then []
         else [denormalize (members_of (content resp) @ [ref m])]) \<and>
      map subscribers_entry
          (written_bodies (drop (length tr) (snd (removeSubscriber t self email tr)))) =
        (if subscribed m (content resp)
         then [denormalize (remove_member m (members_of (content resp)))]
         else [])"
    if v: "\<not> invalid_email email" and m: "getOwnedBy (rtc_obj self) (py_str email) = Inr m"
  proof -
    from addSubscriber_result[where t = t and tr = tr, OF assms v m] obtain d where
      d: "wire_ok d" "members_of d = add_member m (members_of (content resp))"
      "drop (length tr) (snd (addSubscriber t self email tr)) =
       (if subscribed m (content resp) then [fetch_request self]
        else [fetch_request self, write_request self resp d])"
      by blast
    from removeSubscriber_result[where t = t and tr = tr, OF assms v m] obtain d' where
      d': "wire_ok d'" "members_of d' = remove_member m (members_of (content resp))"
      "drop (length tr) (snd (removeSubscriber t self email tr)) =
       (if subscribed m (content resp) then [fetch_request self, write_request self resp d']
        else [fetch_request self])"
      by blast
    from d d' show ?thesis
      by (simp add: entries_written add_member_def subscribed_list_ex)
  qed
  have batch: "map subscribers_entry
          (written_bodies (drop (length tr) (snd (addSubscribers t self emails_list tr)))) =
        [denormalize (add_all (rtc_obj self) emails (members_of (content resp)))] \<and>
      map subscribers_entry
          (written_bodies (drop (length tr) (snd (removeSubscribers t self emails_list tr)))) =
        (if list_all (absent_email (rtc_obj self) (content resp)) emails then []
         else [denormalize (remove_all (rtc_obj self) emails (members_of (content resp)))])"
    if i: "py_iter emails_list = Some emails" and r: "list_all (resolvable (rtc_obj self)) emails"
  proof -
    from addSubscribers_result[where t = t and tr = tr, OF assms i r] obtain d where
      d: "wire_ok d" "members_of d = add_all (rtc_obj self) emails (members_of (content resp))"
      "drop (length tr) (snd (addSubscribers t self emails_list tr)) =
       [fetch_request self, write_request self resp d]"
      by blast
    from removeSubscribers_result[where t = t and tr = tr, OF assms i r] obtain d' where
      d': "wire_ok d'" "members_of d' = remove_all (rtc_obj self) emails (members_of (content resp))"
      "drop (length tr) (snd (removeSubscribers t self emails_list tr)) =
       (if list_all (absent_email (rtc_obj self) (content resp)) emails then [fetch_request self]
        else [fetch_request self, write_request self resp d'])"
      by blast
    from d d' show ?thesis
      by (simp add: entries_written)
  qed
  have h: "\<forall>resp'. t tr (fetch_request self) = Inr resp' \<longrightarrow> wire_ok (content resp')"
    using assms(1,2) by simp
  show ?thesis
    using single batch h addSubscriber_written[of t tr self email]
      removeSubscriber_written[of t tr self email]
      addSubscribers_written[of t tr self emails_list]
      removeSubscribers_written[of t tr self emails_list]
    by blast
qed

theorem written_shape_follows_convention_witness:
  "wire_ok (snapshot [(''rtc_cm:subscribers'', XList [ref (person ''a@x''), ref (person ''b@x'')])]) \<and>
   \<not> subscribed (person ''c@x'')
      (snapshot [(''rtc_cm:subscribers'', XList [ref (person ''a@x''), ref (person ''b@x'')])]) \<and>
   subscribed (person ''a@x'')
      (snapshot [(''rtc_cm:subscribers'', XList [ref (person ''a@x''), ref (person ''b@x'')])]) \<and>
   map subscribers_entry (written_bodies (drop (length ([]::trace)) (snd (addSubscriber
     (store_server (snapshot [(''rtc_cm:subscribers'', XList [ref (person ''a@x''), ref (person ''b@x'')])]))
     demo_item (PyStr ''c@x'') [])))) =
       [Some (XList [ref (person ''a@x''), ref (person ''b@x''), ref (person ''c@x'')])] \<and>
   map subscribers_entry (written_bodies (drop (length ([]::trace)) (snd (removeSubscriber
     (store_server (snapshot [(''rtc_cm:subscribers'', XList [ref (person ''a@x''), ref (person ''b@x'')])]))
     demo_item (PyStr ''a@x'') [])))) = [Some (ref (person ''b@x''))] \<and>
   map subscribers_entry (written_bodies (drop (length ([]::trace)) (snd (removeSubscribers
     (store_server (snapshot [(''rtc_cm:subscribers'', XList [ref (person ''a@x''), ref (person ''b@x'')])]))
     demo_item (PyList [PyStr ''a@x'', PyStr ''b@x'']) [])))) = [None] \<and>
   map subscribers_entry (written_bodies (drop (length ([]::trace)) (snd (addSubscribers
     (store_server (snapshot [(''rtc_cm:subscribers'', XList [ref (person ''a@x''), ref (person ''b@x'')])]))
     demo_item (PyList [PyStr ''a@x'', PyStr ''b@x'']) [])))) =
       [Some (XList [ref (person ''a@x''), ref (person ''b@x'')])]"
proof -
  let ?doc = "snapshot [(''rtc_cm:subscribers'', XList [ref (person ''a@x''), ref (person ''b@x'')])]"
  let ?resp = "\<lparr>content = ?doc, resp_headers = [(''etag'', ''v'')]\<rparr>"
  let ?L = "PyList [PyStr ''a@x'', PyStr ''b@x'']"
  let ?E = "[PyStr ''a@x'', PyStr ''b@x'']"
  have g: "store_server ?doc [] (fetch_request demo_item) = Inr ?resp"
    by (simp add: store_server_def fetch_request_def)
  have w: "wire_ok (content ?resp)" "list_all is_reference (members_of (content ?resp))"
    by code_simp+
  have v: "\<not> invalid_email (PyStr ''c@x'')" "\<not> invalid_email (PyStr ''a@x'')"
    by simp_all
  have m: "getOwnedBy (rtc_obj demo_item) (py_str (PyStr ''c@x'')) = Inr (person ''c@x'')"
    "getOwnedBy (rtc_obj demo_item) (py_str (PyStr ''a@x'')) = Inr (person ''a@x'')"
    by (simp_all add: demo_item_def demo_rtc_def)
  have s: "\<not> subscribed (person ''c@x'') (content ?resp)" "subscribed (person ''a@x'') (content ?resp)"
    by code_simp+
  have i: "py_iter ?L = Some ?E" "list_all (resolvable (rtc_obj demo_item)) ?E"
    "\<not> list_all (absent_email (rtc_obj demo_item) (content ?resp)) ?E"
    by code_simp+
  have e: "denormalize (members_of (content ?resp) @ [ref (person ''c@x'')]) =
      Some (XList [ref (person ''a@x''), ref (person ''b@x''), ref (person ''c@x'')])"
    "denormalize (remove_member (person ''a@x'') (members_of (content ?resp))) =
      Some (ref (person ''b@x''))"
    "denormalize (remove_all (rtc_obj demo_item) ?E (members_of (content ?resp))) = None"
    "denormalize (add_all (rtc_obj demo_item) ?E (members_of (content ?resp))) =
      Some (XList [ref (person ''a@x''), ref (person ''b@x'')])"
    by code_simp+
  note inst_c = written_shape_follows_convention[where t = "store_server ?doc"
      and tr = "[]" and email = "PyStr ''c@x''" and m = "person ''c@x''" and emails_list = ?L
      and emails = ?E, OF g w]
  note inst_a = written_shape_follows_convention[where t = "store_server ?doc"
      and tr = "[]" and email = "PyStr ''a@x''" and m = "person ''a@x''" and emails_list = ?L
      and emails = ?E, OF g w]
  from inst_c v(1) m(1) s(1) e(1)
  have c1: "map subscribers_entry (written_bodies (drop (length ([]::trace))
      (snd (addSubscriber (store_server ?doc) demo_item (PyStr ''c@x'') [])))) =
       [Some (XList [ref (person ''a@x''), ref (person ''b@x''), ref (person ''c@x'')])]"
    by simp
  from inst_a v(2) m(2) s(2) e(2)
  have c2: "map subscribers_entry (written_bodies (drop (length ([]::trace))
      (snd (removeSubscriber (store_server ?doc) demo_item (PyStr ''a@x'') [])))) =
       [Some (ref (person ''b@x''))]"
    by simp
  from inst_a i e(3,4)
  have c3: "map subscribers_entry (written_bodies (drop (length ([]::trace))
      (snd (removeSubscribers (store_server ?doc) demo_item ?L [])))) = [None]"
    and c4: "map subscribers_entry (written_bodies (drop (length ([]::trace))
      (snd (addSubscribers (store_server ?doc) demo_item ?L [])))) =
       [Some (XList [ref (person ''a@x''), ref (person ''b@x'')])]"
    by simp_all
  from w(1) s have w': "wire_ok ?doc" "\<not> subscribed (person ''c@x'') ?doc"
    "subscribed (person ''a@x'') ?doc"
    by simp_all
  show ?thesis
    by (intro conjI w' c1 c2 c3 c4)
qed

subsection \<open>C6: the position of a new comment\<close>

lemma addComment_eq:
  "addComment t self msg tr =
     (case t tr (GET (comments_url self) (headers (rtc_obj self))) of
        Inl e \<Rightarrow> (Inl e, tr @ [GET (comments_url self) (headers (rtc_obj self))])
      | Inr resp \<Rightarrow>
     (case total_count (content resp) of
        Inl e \<Rightarrow> (Inl e, tr @ [GET (comments_url self) (headers (rtc_obj self))])
      | Inr n \<Rightarrow>
     (case t (tr @ [GET (comments_url self) (headers (rtc_obj self))])
             (comment_post self resp (origin_comment_format (join_slash (comments_url self) n) msg)) of
        Inl e \<Rightarrow>
          (Inl e, tr @ [GET (comments_url self) (headers (rtc_obj self)),
             comment_post self resp (origin_comment_format (join_slash (comments_url self) n) msg)])
      | Inr resp2 \<Rightarrow>
     (case getitem (content resp2) ''rdf:RDF'' of
        Inl e \<Rightarrow>
          (Inl e, tr @ [GET (comments_url self) (headers (rtc_obj self)),
             comment_post self resp (origin_comment_format (join_slash (comments_url self) n) msg)])
      | Inr rdf \<Rightarrow>
     (case getitem rdf ''rdf:Description'' of
        Inl e \<Rightarrow>
          (Inl e, tr @ [GET (comments_url self) (headers (rtc_obj self)),
             comment_post self resp (origin_comment_format (join_slash (comments_url self) n) msg)])
      | Inr description \<Rightarrow>
          Comment t (join_slash (comments_url self) n) (rtc_obj self) description
            (tr @ [GET (comments_url self) (headers (rtc_obj self)),
               comment_post self resp
                 (origin_comment_format (join_slash (comments_url self) n) msg)]))))))"
  by (simp add: addComment_def total_count_def comments_url_def comment_post_def send_def Let_def
        split: sum.splits xml.splits)

lemma last_segment_join:
  "CHR ''/'' \<notin> set n \<Longrightarrow> last_segment (join_slash a n) = n"
proof -
  assume n: "CHR ''/'' \<notin> set n"
  have "takeWhile (\<lambda>c. c \<noteq> CHR ''/'') (rev n @ CHR ''/'' # rev a) = rev n"
    using n by (subst takeWhile_append2) auto
  then show ?thesis by (simp add: last_segment_def join_slash_def)
qed

lemma Comment_url:
  "Comment t u rtc d tr = (Inr c, tr') \<Longrightarrow> c_url c = u \<and> (\<exists>rest. tr' = tr @ rest)"
  by (auto simp: Comment_def send_def split: if_splits sum.splits)

text \<open>
  C6. When \<^verbatim>\<open>addComment\<close> returns a comment, that comment is bound to the comments URL
  joined with the total count \<open>n\<close> read from the collection that was fetched, so its
  identifier (the last segment of the URL) is \<open>n\<close>; the fetch is the request right
  before the \<^verbatim>\<open>POST\<close>, and the posted fragment names the same URL.
\<close>

theorem addComment_position:
  assumes "t tr (GET (comments_url self) (headers (rtc_obj self))) = Inr resp"
    and "total_count (content resp) = Inr n"
    and "addComment t self msg tr = (Inr c, tr')"
  shows "c_url c = join_slash (comments_url self) n \<and>
    (CHR ''/'' \<notin> set n \<longrightarrow> last_segment (c_url c) = n) \<and>
    (\<exists>rest. tr' = tr @ [GET (comments_url self) (headers (rtc_obj self)),
                        comment_post self resp (origin_comment_format (c_url c) msg)] @ rest)"
proof -
  let ?g = "GET (comments_url self) (headers (rtc_obj self))"
  let ?p = "comment_post self resp (origin_comment_format (join_slash (comments_url self) n) msg)"
  from assms obtain d where
    "Comment t (join_slash (comments_url self) n) (rtc_obj self) d (tr @ [?g, ?p]) = (Inr c, tr')"
    by (auto simp: addComment_eq split: sum.splits)
  from Comment_url[OF this] obtain rest where
    u: "c_url c = join_slash (comments_url self) n" and r: "tr' = (tr @ [?g, ?p]) @ rest"
    by blast
  from u r show ?thesis
    by (auto simp: last_segment_join)
qed

theorem addComment_position_witness:
  "comment_server ''3'' [] (GET (comments_url demo_item) (headers (rtc_obj demo_item))) =
     Inr \<lparr>content = XDict [(''oslc_cm:Collection'', XDict [(''@oslc_cm:totalCount'', XStr ''3'')])],
          resp_headers = [(''etag'', ''c'')]\<rparr> \<and>
   total_count (XDict [(''oslc_cm:Collection'', XDict [(''@oslc_cm:totalCount'', XStr ''3'')])]) = Inr ''3'' \<and>
   fst (addComment (comment_server ''3'') demo_item (PyStr ''hello'') []) =
     Inr \<lparr>c_url = ''w/7/rtc_cm:comments/3'',
          c_raw_data = XDict [(''dcterms:description'', XStr ''text'')]\<rparr> \<and>
   last_segment ''w/7/rtc_cm:comments/3'' = ''3'' \<and>
   map is_post (snd (addComment (comment_server ''3'') demo_item (PyStr ''hello'') [])) = [False, True]"
proof -
  let ?resp = "\<lparr>content = XDict [(''oslc_cm:Collection'', XDict [(''@oslc_cm:totalCount'', XStr ''3'')])],
          resp_headers = [(''etag'', ''c'')]\<rparr>"
  let ?c = "\<lparr>c_url = ''w/7/rtc_cm:comments/3'',
          c_raw_data = XDict [(''dcterms:description'', XStr ''text'')]\<rparr>"
  have g: "comment_server ''3'' [] (GET (comments_url demo_item) (headers (rtc_obj demo_item))) = Inr ?resp"
    by (simp add: comment_server_def)
  have n: "total_count (content ?resp) = Inr ''3''"
    by code_simp
  have a: "fst (addComment (comment_server ''3'') demo_item (PyStr ''hello'') []) = Inr ?c"
    by code_simp
  have m: "map is_post (snd (addComment (comment_server ''3'') demo_item (PyStr ''hello'') [])) = [False, True]"
    by code_simp
  have s: "CHR ''/'' \<notin> set ''3''" by simp
  have "addComment (comment_server ''3'') demo_item (PyStr ''hello'') [] =
      (Inr ?c, snd (addComment (comment_server ''3'') demo_item (PyStr ''hello'') []))"
    using a by (metis prod.collapse)
  from addComment_position[OF g n this]
  have "CHR ''/'' \<notin> set ''3'' \<longrightarrow> last_segment (c_url ?c) = ''3''"
    by (rule conjunct1[OF conjunct2])
  with s have l: "last_segment ''w/7/rtc_cm:comments/3'' = ''3''" by simp
  have n': "total_count (XDict [(''oslc_cm:Collection'', XDict [(''@oslc_cm:totalCount'', XStr ''3'')])]) = Inr ''3''"
    using n by simp
  show ?thesis
    by (intro conjI g n' a l m)
qed

subsection \<open>C7: the text of a comment in the request body\<close>

lemma posted_bodies_simps:
  "posted_bodies [] = []"
  "posted_bodies (GET u h # tr) = posted_bodies tr"
  "posted_bodies (PUT u h d # tr) = posted_bodies tr"
  "posted_bodies (comment_post self resp body # tr) = body # posted_bodies tr"
  by (simp_all add: posted_bodies_def List.map_filter_simps comment_post_def)

lemma posted_bodies_append:
  "posted_bodies (a @ b) = posted_bodies a @ posted_bodies b"
  by (simp add: posted_bodies_def List.map_filter_def)

lemma Comment_trace:
  "\<exists>rest. snd (Comment t u rtc d tr) = tr @ rest \<and> posted_bodies rest = []"
  by (auto simp: Comment_def send_def posted_bodies_simps split: sum.splits)

lemma length_xml_escape: "length s \<le> length (xml_escape s)"
  by (induction s) (auto simp: xml_escape_def escape_char_def)

lemma xml_escape_plain: "list_all plain s \<Longrightarrow> xml_escape s = s"
  by (induction s) (auto simp: xml_escape_def escape_char_def plain_def)

lemma xml_escape_longer: "\<not> list_all plain s \<Longrightarrow> length s < length (xml_escape s)"
proof (induction s)
  case Nil
  then show ?case by simp
next
  case (Cons c s)
  have "length s \<le> length (xml_escape s)" by (rule length_xml_escape)
  with Cons show ?case
    by (auto simp: xml_escape_def escape_char_def plain_def)
qed

lemma xml_escape_id: "(xml_escape s = s) = list_all plain s"
proof
  assume e: "xml_escape s = s"
  show "list_all plain s"
  proof (rule ccontr)
    assume "\<not> list_all plain s"
    then have "length s < length (xml_escape s)" by (rule xml_escape_longer)
    with e show False by simp
  qed
next
  assume "list_all plain s"
  then show "xml_escape s = s" by (rule xml_escape_plain)
qed

text \<open>
  C7, as stated: the comment text is escaped before it is put into the RDF fragment.
  \<^verbatim>\<open>origin_comment.format(comment_url, msg)\<close> inserts the text as it is: for the message
  \<^verbatim>\<open>a<b\<close> the posted body holds \<^verbatim>\<open>a<b\<close> between the description tags, where the escaped
  body would hold \<^verbatim>\<open>a&lt;b\<close>.
\<close>

theorem comment_text_not_escaped:
  "posted_bodies (snd (addComment (comment_server ''3'') demo_item (PyStr ''a<b'') [])) =
     [comment_head @ ''w/7/rtc_cm:comments/3'' @ comment_mid @ ''a<b'' @ comment_tail] \<and>
   spec_comment_body ''w/7/rtc_cm:comments/3'' (PyStr ''a<b'') =
     comment_head @ ''w/7/rtc_cm:comments/3'' @ comment_mid @ ''a&lt;b'' @ comment_tail \<and>
   posted_bodies (snd (addComment (comment_server ''3'') demo_item (PyStr ''a<b'') [])) \<noteq>
     [spec_comment_body ''w/7/rtc_cm:comments/3'' (PyStr ''a<b'')]"
  by code_simp

text \<open>
  C7, amended: the text of the message is inserted into the RDF fragment as it is,
  without escaping: the one body posted is the template with the comment URL and the
  text in its two fields. It is the body that escaping would give exactly when the
  text has none of the characters \<^verbatim>\<open>&\<close>, \<^verbatim>\<open><\<close> and \<^verbatim>\<open>>\<close>.
\<close>

theorem comment_text_verbatim:
  assumes "t tr (GET (comments_url self) (headers (rtc_obj self))) = Inr resp"
    and "total_count (content resp) = Inr n"
  shows "posted_bodies (drop (length tr) (snd (addComment t self msg tr))) =
      [comment_head @ join_slash (comments_url self) n @ comment_mid @ py_str msg @ comment_tail] \<and>
    (origin_comment_format (join_slash (comments_url self) n) msg =
       spec_comment_body (join_slash (comments_url self) n) msg) = list_all plain (py_str msg)"
proof -
  let ?g = "GET (comments_url self) (headers (rtc_obj self))"
  let ?p = "comment_post self resp (origin_comment_format (join_slash (comments_url self) n) msg)"
  have "\<exists>rest. snd (addComment t self msg tr) = tr @ [?g, ?p] @ rest \<and> posted_bodies rest = []"
  proof (cases "t (tr @ [?g]) ?p")
    case (Inl e)
    with assms show ?thesis by (simp add: addComment_eq posted_bodies_simps)
  next
    case (Inr resp2)
    show ?thesis
    proof (cases "getitem (content resp2) ''rdf:RDF''")
      case (Inl e)
      with assms Inr show ?thesis by (simp add: addComment_eq posted_bodies_simps)
    next
      case rdf: (Inr rdf)
      show ?thesis
      proof (cases "getitem rdf ''rdf:Description''")
        case (Inl e)
        with assms Inr rdf show ?thesis by (simp add: addComment_eq posted_bodies_simps)
      next
        case d: (Inr d)
        from Comment_trace[of t "join_slash (comments_url self) n" "rtc_obj self" d "tr @ [?g, ?p]"]
        show ?thesis using assms Inr rdf d by (simp add: addComment_eq)
      qed
    qed
  qed
  then obtain rest where "snd (addComment t self msg tr) = tr @ [?g, ?p] @ rest"
    and "posted_bodies rest = []" by blast
  then have b: "posted_bodies (drop (length tr) (snd (addComment t self msg tr))) =
      [origin_comment_format (join_slash (comments_url self) n) msg]"
    by (simp add: posted_bodies_simps)
  have "(xml_escape (py_str msg) = py_str msg) = list_all plain (py_str msg)"
    by (rule xml_escape_id)
  then have "(origin_comment_format u msg = spec_comment_body u msg) = list_all plain (py_str msg)" for u
    by (auto simp: origin_comment_format_def spec_comment_body_def)
  with b show ?thesis
    by (simp add: origin_comment_format_def)
qed

theorem comment_text_verbatim_witness:
  "comment_server ''3'' [] (GET (comments_url demo_item) (headers (rtc_obj demo_item))) =
     Inr \<lparr>content = XDict [(''oslc_cm:Collection'', XDict [(''@oslc_cm:totalCount'', XStr ''3'')])],
          resp_headers = [(''etag'', ''c'')]\<rparr> \<and>
   total_count (XDict [(''oslc_cm:Collection'', XDict [(''@oslc_cm:totalCount'', XStr ''3'')])]) = Inr ''3'' \<and>
   posted_bodies (drop (length ([]::trace))
       (snd (addComment (comment_server ''3'') demo_item (PyStr ''x & y'') []))) =
     [comment_head @ join_slash (comments_url demo_item) ''3'' @ comment_mid @ ''x & y'' @ comment_tail] \<and>
   \<not> list_all plain ''x & y'' \<and>
   origin_comment_format (join_slash (comments_url demo_item) ''3'') (PyStr ''x & y'') \<noteq>
     spec_comment_body (join_slash (comments_url demo_item) ''3'') (PyStr ''x & y'')"
proof -
  let ?resp = "\<lparr>content = XDict [(''oslc_cm:Collection'', XDict [(''@oslc_cm:totalCount'', XStr ''3'')])],
          resp_headers = [(''etag'', ''c'')]\<rparr>"
  have g: "comment_server ''3'' [] (GET (comments_url demo_item) (headers (rtc_obj demo_item))) = Inr ?resp"
    by (simp add: comment_server_def)
  have n: "total_count (content ?resp) = Inr ''3''"
    by code_simp
  have p: "\<not> list_all plain ''x & y''"
    by (simp add: plain_def)
  from comment_text_verbatim[where t = "comment_server ''3''" and tr = "[]" and self = demo_item
      and msg = "PyStr ''x & y''", OF g n] g n p
  show ?thesis by simp
qed

subsection \<open>C8: no-ops do not write\<close>

lemma addSubscriber_twice:
  assumes g1: "t tr (fetch_request self) = Inr resp1"
    and m: "getOwnedBy (rtc_obj self) (py_str email) = Inr m"
    and first: "addSubscriber t self email tr = (Inr (), tr1)"
    and g2: "t tr1 (fetch_request self) = Inr resp2"
    and served: "content resp2 =
        (case last_put (drop (length tr) tr1) of Some d \<Rightarrow> d | None \<Rightarrow> content resp1)"
  shows "addSubscriber t self email tr1 = (Inr (), tr1 @ [fetch_request self]) \<and>
     puts (drop (length tr) (tr1 @ [fetch_request self])) =
       (if subscribed m (content resp1) then 0 else 1)"
proof -
  from first g1 obtain fl raw' where
    a: "add_subscriber (rtc_obj self) email (content resp1) = Inr (fl, raw')"
    by (auto simp: addSubscriber_eq split: sum.splits)
  from add_subscriber_flag[OF a m] have fl: "fl = subscribed m (content resp1)" .
  show ?thesis
  proof (cases fl)
    case True
    with a have same: "raw' = content resp1" by (auto dest: add_subscriber_same)
    from first g1 a True have tr1: "tr1 = tr @ [fetch_request self]"
      by (simp add: addSubscriber_eq)
    with served have "content resp2 = content resp1"
      by (simp add: fetch_request_def)
    with a True same g2 tr1 fl show ?thesis
      by (simp add: addSubscriber_eq puts_simps)
  next
    case False
    from first g1 a False have tr1: "tr1 = tr @ [fetch_request self, write_request self resp1 raw']"
      by (auto simp: addSubscriber_eq split: sum.splits)
    with served have c: "content resp2 = raw'"
      by (simp add: fetch_request_def write_request_def)
    from a False have "add_subscriber (rtc_obj self) email raw' = Inr (True, raw')"
      by (auto dest: add_subscriber_again)
    with c g2 tr1 fl False show ?thesis
      by (simp add: addSubscriber_eq puts_simps)
  qed
qed

lemma removeSubscriber_absent:
  assumes "t tr (fetch_request self) = Inr resp" "wire_ok (content resp)"
    "list_all is_reference (members_of (content resp))" "\<not> invalid_email email"
    "getOwnedBy (rtc_obj self) (py_str email) = Inr m" "\<not> subscribed m (content resp)"
  shows "removeSubscriber t self email tr = (Inr (), tr @ [fetch_request self])"
  using assms(1) remove_subscriber_absent[OF assms(2-6)]
  by (simp add: removeSubscriber_eq)

text \<open>
  C8. Two calls of \<^verbatim>\<open>addSubscriber\<close> with the same email, the first returning normally
  and the second fetching what the server holds after the first (the document last
  written, or the one first fetched when nothing was written): the second call returns
  normally without a write, and the two calls together write once, when the person was
  not a subscriber before (not at all when the person already was one). A call of
  \<^verbatim>\<open>removeSubscriber\<close> for a person who is not among the subscribers of a well-formed
  snapshot returns normally and writes nothing.
\<close>

theorem subscriber_noop_skips_write:
  "(t tr (fetch_request self) = Inr resp1 \<and>
    getOwnedBy (rtc_obj self) (py_str email) = Inr m \<and>
    addSubscriber t self email tr = (Inr (), tr1) \<and>
    t tr1 (fetch_request self) = Inr resp2 \<and>
    content resp2 = (case last_put (drop (length tr) tr1) of Some d \<Rightarrow> d | None \<Rightarrow> content resp1)
    \<longrightarrow>
      addSubscriber t self email tr1 = (Inr (), tr1 @ [fetch_request self]) \<and>
      puts (drop (length tr) (tr1 @ [fetch_request self])) =
        (if subscribed m (content resp1) then 0 else 1)) \<and>
   (t tr (fetch_request self) = Inr resp \<and> wire_ok (content resp) \<and>
    list_all is_reference (members_of (content resp)) \<and> \<not> invalid_email email \<and>
    getOwnedBy (rtc_obj self) (py_str email) = Inr m \<and> \<not> subscribed m (content resp)
    \<longrightarrow>
      removeSubscriber t self email tr = (Inr (), tr @ [fetch_request self]) \<and>
      puts (drop (length tr) (tr @ [fetch_request self])) = 0)"
  using addSubscriber_twice[of t tr self resp1 email m tr1 resp2]
    removeSubscriber_absent[of t tr self resp email m]
  by (simp add: puts_simps)


theorem subscriber_noop_skips_write_witness:
  "fst (addSubscriber (store_server (snapshot [])) demo_item (PyStr ''a@x'') []) = Inr () \<and>
   puts (snd (addSubscriber (store_server (snapshot [])) demo_item (PyStr ''a@x'') [])) = 1 \<and>
   addSubscriber (store_server (snapshot [])) demo_item (PyStr ''a@x'')
       (snd (addSubscriber (store_server (snapshot [])) demo_item (PyStr ''a@x'') [])) =
     (Inr (), snd (addSubscriber (store_server (snapshot [])) demo_item (PyStr ''a@x'') [])
                @ [fetch_request demo_item]) \<and>
   puts (drop (length ([]::trace))
       (snd (addSubscriber (store_server (snapshot [])) demo_item (PyStr ''a@x'') [])
          @ [fetch_request demo_item])) = 1 \<and>
   \<not> subscribed (person ''a@x'') (snapshot [(''rtc_cm:subscribers'', ref (person ''b@x''))]) \<and>
   removeSubscriber (store_server (snapshot [(''rtc_cm:subscribers'', ref (person ''b@x''))]))
       demo_item (PyStr ''a@x'') [] = (Inr (), [] @ [fetch_request demo_item])"
proof -
  let ?S = "store_server (snapshot [])"
  let ?e = "PyStr ''a@x''"
  let ?tr1 = "snd (addSubscriber ?S demo_item ?e [])"
  let ?resp1 = "\<lparr>content = snapshot [], resp_headers = [(''etag'', ''v'')]\<rparr>"
  let ?resp2 = "\<lparr>content = (case last_put ?tr1 of Some d \<Rightarrow> d | None \<Rightarrow> snapshot []),
                 resp_headers = [(''etag'', ''v'')]\<rparr>"
  let ?doc = "snapshot [(''rtc_cm:subscribers'', ref (person ''b@x''))]"
  let ?resp = "\<lparr>content = ?doc, resp_headers = [(''etag'', ''v'')]\<rparr>"
  have h1: "?S [] (fetch_request demo_item) = Inr ?resp1"
    by (simp add: store_server_def fetch_request_def)
  have h2: "getOwnedBy (rtc_obj demo_item) (py_str ?e) = Inr (person ''a@x'')"
    by (simp add: demo_item_def demo_rtc_def)
  have f: "fst (addSubscriber ?S demo_item ?e []) = Inr ()"
    by code_simp
  then have h3: "addSubscriber ?S demo_item ?e [] = (Inr (), ?tr1)"
    by (metis prod.collapse)
  have h4: "?S ?tr1 (fetch_request demo_item) = Inr ?resp2"
    by (simp add: store_server_def fetch_request_def)
  have h5: "content ?resp2 =
      (case last_put (drop (length ([]::trace)) ?tr1) of Some d \<Rightarrow> d | None \<Rightarrow> content ?resp1)"
    by (simp split: option.splits)
  have p1: "puts ?tr1 = 1"
    by code_simp
  have ns: "\<not> subscribed (person ''a@x'') (content ?resp1)"
    by code_simp
  have k1: "store_server ?doc [] (fetch_request demo_item) = Inr ?resp"
    by (simp add: store_server_def fetch_request_def)
  have k2: "wire_ok (content ?resp)" "list_all is_reference (members_of (content ?resp))"
    "\<not> invalid_email ?e" "\<not> subscribed (person ''a@x'') (content ?resp)"
    by code_simp+
  note inst1 = subscriber_noop_skips_write[where t = ?S and tr = "[]" and self = demo_item
      and ?resp1.0 = ?resp1 and email = ?e and m = "person ''a@x''" and ?tr1.0 = ?tr1
      and ?resp2.0 = ?resp2]
  note inst2 = subscriber_noop_skips_write[where t = "store_server ?doc" and tr = "[]"
      and self = demo_item and resp = ?resp and email = ?e and m = "person ''a@x''"]
  from inst1 h1 h2 h3 h4 h5 ns
  have a: "addSubscriber ?S demo_item ?e ?tr1 = (Inr (), ?tr1 @ [fetch_request demo_item])"
    and b: "puts (drop (length ([]::trace)) (?tr1 @ [fetch_request demo_item])) = 1"
    by auto
  from inst2 k1 k2 h2
  have c: "removeSubscriber (store_server ?doc) demo_item ?e [] = (Inr (), [] @ [fetch_request demo_item])"
    by blast
  from k2(4) have d: "\<not> subscribed (person ''a@x'') ?doc" by simp
  show ?thesis
    by (intro conjI f p1 a b c d)
qed

subsection \<open>C9: one fetch and at most one write for a batch\<close>

lemma addSubscribers_counts:
  assumes "py_iter emails_list = Some emails"
  shows "gets (drop (length tr) (snd (addSubscribers t self emails_list tr))) = 1 \<and>
    puts (drop (length tr) (snd (addSubscribers t self emails_list tr))) \<le> 1"
  using assms
  by (auto simp: addSubscribers_eq gets_simps puts_simps split: sum.splits)

lemma removeSubscribers_counts:
  assumes "py_iter emails_list = Some emails"
  shows "gets (drop (length tr) (snd (removeSubscribers t self emails_list tr))) = 1 \<and>
    puts (drop (length tr) (snd (removeSubscribers t self emails_list tr))) \<le> 1"
  using assms
  by (auto simp: removeSubscribers_eq gets_simps puts_simps split: sum.splits)

lemma addSubscribers_in_order:
  assumes "py_iter emails_list = Some emails" "t tr (fetch_request self) = Inr resp"
  shows "list_all (\<lambda>d. in_order (add_subscriber (rtc_obj self)) emails (content resp) = Inr d)
      (written_bodies (drop (length tr) (snd (addSubscribers t self emails_list tr))))"
  using assms
  by (auto simp: addSubscribers_eq written_bodies_simps split: sum.splits
        dest: add_loop_in_order)

lemma removeSubscribers_in_order:
  assumes "py_iter emails_list = Some emails" "t tr (fetch_request self) = Inr resp"
  shows "list_all (\<lambda>d. in_order (remove_subscriber (rtc_obj self)) emails (content resp) = Inr d)
      (written_bodies (drop (length tr) (snd (removeSubscribers t self emails_list tr))))"
  using assms
  by (auto simp: removeSubscribers_eq written_bodies_simps split: sum.splits
        dest: remove_loop_in_order)

lemma removeSubscribers_skip:
  assumes "py_iter emails_list = Some emails" "t tr (fetch_request self) = Inr resp"
    "wire_ok (content resp)" "list_all is_reference (members_of (content resp))"
    "list_all (resolvable (rtc_obj self)) emails"
  shows "puts (drop (length tr) (snd (removeSubscribers t self emails_list tr))) =
      (if list_all (absent_email (rtc_obj self) (content resp)) emails then 0 else 1) \<and>
    (list_all (absent_email (rtc_obj self) (content resp)) emails \<longrightarrow>
      fst (removeSubscribers t self emails_list tr) = Inr ())"
proof -
  from remove_loop_spec[OF assms(5,3,4), of True] obtain raw' where
    "remove_loop (rtc_obj self) emails True (content resp) =
       Inr (list_all (absent_email (rtc_obj self) (content resp)) emails, raw')"
    by auto
  with assms(1,2) show ?thesis
    by (auto simp: removeSubscribers_eq puts_simps split: sum.splits)
qed

lemma batch_members:
  assumes "py_iter emails_list = Some emails" "t tr (fetch_request self) = Inr resp"
    "wire_ok (content resp)" "list_all is_reference (members_of (content resp))"
    "list_all (resolvable (rtc_obj self)) emails"
  shows "puts (drop (length tr) (snd (addSubscribers t self emails_list tr))) = 1 \<and>
    map members_of
        (written_bodies (drop (length tr) (snd (addSubscribers t self emails_list tr)))) =
      [add_all (rtc_obj self) emails (members_of (content resp))] \<and>
    map members_of
        (written_bodies (drop (length tr) (snd (removeSubscribers t self emails_list tr)))) =
      (if list_all (absent_email (rtc_obj self) (content resp)) emails then []
       else [remove_all (rtc_obj self) emails (members_of (content resp))])"
proof -
  from addSubscribers_result[where t = t and tr = tr, OF assms(2-4) assms(1) assms(5)] obtain d where
    d: "members_of d = add_all (rtc_obj self) emails (members_of (content resp))"
    "drop (length tr) (snd (addSubscribers t self emails_list tr)) =
       [fetch_request self, write_request self resp d]"
    by blast
  from removeSubscribers_result[where t = t and tr = tr, OF assms(2-4) assms(1) assms(5)] obtain d' where
    d': "members_of d' = remove_all (rtc_obj self) emails (members_of (content resp))"
    "drop (length tr) (snd (removeSubscribers t self emails_list tr)) =
       (if list_all (absent_email (rtc_obj self) (content resp)) emails then [fetch_request self]
        else [fetch_request self, write_request self resp d'])"
    by blast
  from d d' show ?thesis
    by (simp add: written_bodies_simps puts_simps)
qed

text \<open>
  C9. A batch call on an iterable argument issues exactly one \<^verbatim>\<open>GET\<close> and at most one
  \<^verbatim>\<open>PUT\<close>. What it writes is the fetched snapshot after the per-member step has been
  applied to the emails in the order supplied. For a well-formed snapshot and emails
  that resolve to persons, \<^verbatim>\<open>removeSubscribers\<close> writes nothing, and returns normally,
  exactly when every requested person was absent from the fetched snapshot, and
  writes once otherwise; \<^verbatim>\<open>addSubscribers\<close> writes once; and the members of the
  document written are the fetched members after the persons of the batch have been
  added, or removed, one after the other in the order of the batch.
\<close>

theorem batch_one_fetch_one_write:
  assumes "py_iter emails_list = Some emails"
  shows
   "gets (drop (length tr) (snd (addSubscribers t self emails_list tr))) = 1 \<and>
    puts (drop (length tr) (snd (addSubscribers t self emails_list tr))) \<le> 1 \<and>
    gets (drop (length tr) (snd (removeSubscribers t self emails_list tr))) = 1 \<and>
    puts (drop (length tr) (snd (removeSubscribers t self emails_list tr))) \<le> 1 \<and>
    (\<forall>resp. t tr (fetch_request self) = Inr resp \<longrightarrow>
       list_all (\<lambda>d. in_order (add_subscriber (rtc_obj self)) emails (content resp) = Inr d)
         (written_bodies (drop (length tr) (snd (addSubscribers t self emails_list tr)))) \<and>
       list_all (\<lambda>d. in_order (remove_subscriber (rtc_obj self)) emails (content resp) = Inr d)
         (written_bodies (drop (length tr) (snd (removeSubscribers t self emails_list tr)))) \<and>
       (wire_ok (content resp) \<and> list_all is_reference (members_of (content resp)) \<and>
        list_all (resolvable (rtc_obj self)) emails \<longrightarrow>
          puts (drop (length tr) (snd (removeSubscribers t self emails_list tr))) =
            (if list_all (absent_email (rtc_obj self) (content resp)) emails then 0 else 1) \<and>
          (list_all (absent_email (rtc_obj self) (content resp)) emails \<longrightarrow>
             fst (removeSubscribers t self emails_list tr) = Inr ()) \<and>
          puts (drop (length tr) (snd (addSubscribers t self emails_list tr))) = 1 \<and>
          map members_of
              (written_bodies (drop (length tr) (snd (addSubscribers t self emails_list tr)))) =
            [add_all (rtc_obj self) emails (members_of (content resp))] \<and>
          map members_of
              (written_bodies (drop (length tr) (snd (removeSubscribers t self emails_list tr)))) =
            (if list_all (absent_email (rtc_obj self) (content resp)) emails then []
             else [remove_all (rtc_obj self) emails (members_of (content resp))])))"
  using addSubscribers_counts[OF assms, of tr t self] removeSubscribers_counts[OF assms, of tr t self]
    addSubscribers_in_order[OF assms, of t tr self] removeSubscribers_in_order[OF assms, of t tr self]
    removeSubscribers_skip[OF assms, of t tr self] batch_members[OF assms, of t tr self]
  by blast


theorem batch_one_fetch_one_write_witness:
  "py_iter (PyList [PyStr ''c@x'', PyStr ''a@x'']) = Some [PyStr ''c@x'', PyStr ''a@x''] \<and>
   gets (drop (length ([]::trace)) (snd (addSubscribers
      (store_server (snapshot [(''rtc_cm:subscribers'',
          XList [ref (person ''a@x''), ref (person ''b@x''), ref (person ''c@x'')])]))
      demo_item (PyList [PyStr ''c@x'', PyStr ''a@x'']) []))) = 1 \<and>
   gets (drop (length ([]::trace)) (snd (removeSubscribers
      (store_server (snapshot [(''rtc_cm:subscribers'',
          XList [ref (person ''a@x''), ref (person ''b@x''), ref (person ''c@x'')])]))
      demo_item (PyList [PyStr ''c@x'', PyStr ''a@x'']) []))) = 1 \<and>
   puts (drop (length ([]::trace)) (snd (removeSubscribers
      (store_server (snapshot [(''rtc_cm:subscribers'',
          XList [ref (person ''a@x''), ref (person ''b@x''), ref (person ''c@x'')])]))
      demo_item (PyList [PyStr ''c@x'', PyStr ''a@x'']) []))) = 1 \<and>
   written_bodies (snd (removeSubscribers
      (store_server (snapshot [(''rtc_cm:subscribers'',
          XList [ref (person ''a@x''), ref (person ''b@x''), ref (person ''c@x'')])]))
      demo_item (PyList [PyStr ''c@x'', PyStr ''a@x'']) [])) =
     [snapshot [(''rtc_cm:subscribers'', ref (person ''b@x''))]] \<and>
   in_order (remove_subscriber (rtc_obj demo_item)) [PyStr ''c@x'', PyStr ''a@x'']
      (snapshot [(''rtc_cm:subscribers'',
          XList [ref (person ''a@x''), ref (person ''b@x''), ref (person ''c@x'')])]) =
     Inr (snapshot [(''rtc_cm:subscribers'', ref (person ''b@x''))]) \<and>
   list_all (absent_email (rtc_obj demo_item)
      (snapshot [(''rtc_cm:subscribers'', ref (person ''b@x''))])) [PyStr ''c@x'', PyStr ''a@x''] \<and>
   puts (drop (length ([]::trace)) (snd (removeSubscribers
      (store_server (snapshot [(''rtc_cm:subscribers'', ref (person ''b@x''))]))
      demo_item (PyList [PyStr ''c@x'', PyStr ''a@x'']) []))) = 0 \<and>
   fst (removeSubscribers
      (store_server (snapshot [(''rtc_cm:subscribers'', ref (person ''b@x''))]))
      demo_item (PyList [PyStr ''c@x'', PyStr ''a@x'']) []) = Inr () \<and>
   puts (drop (length ([]::trace)) (snd (addSubscribers
      (store_server (snapshot [(''rtc_cm:subscribers'', ref (person ''b@x''))]))
      demo_item (PyList [PyStr ''c@x'', PyStr ''a@x'']) []))) = 1 \<and>
   map members_of (written_bodies (drop (length ([]::trace)) (snd (addSubscribers
      (store_server (snapshot [(''rtc_cm:subscribers'', ref (person ''b@x''))]))
      demo_item (PyList [PyStr ''c@x'', PyStr ''a@x'']) [])))) =
     [[ref (person ''b@x''), ref (person ''c@x''), ref (person ''a@x'')]] \<and>
   map members_of (written_bodies (drop (length ([]::trace)) (snd (removeSubscribers
      (store_server (snapshot [(''rtc_cm:subscribers'',
          XList [ref (person ''a@x''), ref (person ''b@x''), ref (person ''c@x'')])]))
      demo_item (PyList [PyStr ''c@x'', PyStr ''a@x'']) [])))) =
     [[ref (person ''b@x'')]]"
proof -
  let ?L = "PyList [PyStr ''c@x'', PyStr ''a@x'']"
  let ?E = "[PyStr ''c@x'', PyStr ''a@x'']"
  let ?doc3 = "snapshot [(''rtc_cm:subscribers'',
          XList [ref (person ''a@x''), ref (person ''b@x''), ref (person ''c@x'')])]"
  let ?doc1 = "snapshot [(''rtc_cm:subscribers'', ref (person ''b@x''))]"
  let ?r3 = "\<lparr>content = ?doc3, resp_headers = [(''etag'', ''v'')]\<rparr>"
  let ?r1 = "\<lparr>content = ?doc1, resp_headers = [(''etag'', ''v'')]\<rparr>"
  have i: "py_iter ?L = Some ?E" by simp
  have g3: "store_server ?doc3 [] (fetch_request demo_item) = Inr ?r3"
    by (simp add: store_server_def fetch_request_def)
  have g1: "store_server ?doc1 [] (fetch_request demo_item) = Inr ?r1"
    by (simp add: store_server_def fetch_request_def)
  have w3: "wire_ok (content ?r3)" "list_all is_reference (members_of (content ?r3))"
    "list_all (resolvable (rtc_obj demo_item)) ?E"
    "\<not> list_all (absent_email (rtc_obj demo_item) (content ?r3)) ?E"
    by code_simp+
  have w1: "wire_ok (content ?r1)" "list_all is_reference (members_of (content ?r1))"
    "list_all (absent_email (rtc_obj demo_item) (content ?r1)) ?E"
    by code_simp+
  have b: "written_bodies (snd (removeSubscribers (store_server ?doc3) demo_item ?L [])) = [?doc1]"
    "in_order (remove_subscriber (rtc_obj demo_item)) ?E ?doc3 = Inr ?doc1"
    by code_simp+
  note inst3 = batch_one_fetch_one_write[OF i, where t = "store_server ?doc3" and tr = "[]"
      and self = demo_item]
  note inst1 = batch_one_fetch_one_write[OF i, where t = "store_server ?doc1" and tr = "[]"
      and self = demo_item]
  from inst3 have c1: "gets (drop (length ([]::trace))
      (snd (addSubscribers (store_server ?doc3) demo_item ?L []))) = 1"
    and c2: "gets (drop (length ([]::trace))
      (snd (removeSubscribers (store_server ?doc3) demo_item ?L []))) = 1"
    by blast+
  from inst3 g3 w3 have c3: "puts (drop (length ([]::trace))
      (snd (removeSubscribers (store_server ?doc3) demo_item ?L []))) = 1"
    by auto
  from inst1 g1 w1 w3(3) have c4: "puts (drop (length ([]::trace))
      (snd (removeSubscribers (store_server ?doc1) demo_item ?L []))) = 0"
    and c5: "fst (removeSubscribers (store_server ?doc1) demo_item ?L []) = Inr ()"
    by auto
  from w1(3) have a: "list_all (absent_email (rtc_obj demo_item) ?doc1) ?E" by simp
  have e: "add_all (rtc_obj demo_item) ?E (members_of (content ?r1)) =
      [ref (person ''b@x''), ref (person ''c@x''), ref (person ''a@x'')]"
    "remove_all (rtc_obj demo_item) ?E (members_of (content ?r3)) = [ref (person ''b@x'')]"
    by code_simp+
  from inst1 g1 w1(1,2) w3(3) have k1: "puts (drop (length ([]::trace))
      (snd (addSubscribers (store_server ?doc1) demo_item ?L []))) = 1 \<and>
    map members_of (written_bodies (drop (length ([]::trace))
      (snd (addSubscribers (store_server ?doc1) demo_item ?L [])))) =
     [add_all (rtc_obj demo_item) ?E (members_of (content ?r1))]"
    by blast
  from k1 have c6: "puts (drop (length ([]::trace))
      (snd (addSubscribers (store_server ?doc1) demo_item ?L []))) = 1"
    by (rule conjunct1)
  from k1 have c7: "map members_of (written_bodies (drop (length ([]::trace))
      (snd (addSubscribers (store_server ?doc1) demo_item ?L [])))) =
     [[ref (person ''b@x''), ref (person ''c@x''), ref (person ''a@x'')]]"
    unfolding e(1) by (rule conjunct2)
  from inst3 g3 w3(1,2,3) have k3: "map members_of (written_bodies (drop (length ([]::trace))
      (snd (removeSubscribers (store_server ?doc3) demo_item ?L [])))) =
     (if list_all (absent_email (rtc_obj demo_item) (content ?r3)) ?E then []
      else [remove_all (rtc_obj demo_item) ?E (members_of (content ?r3))])"
    by blast
  from k3 w3(4) have c8: "map members_of (written_bodies (drop (length ([]::trace))
      (snd (removeSubscribers (store_server ?doc3) demo_item ?L [])))) = [[ref (person ''b@x'')]]"
    unfolding e(2) by (simp only: if_False)
  show ?thesis
    by (intro conjI i c1 c2 c3 b a c4 c5 c6 c7 c8)
qed

subsection \<open>C10: a string passed as the batch\<close>

text \<open>
  C10, as stated: a single string passed as \<^verbatim>\<open>emails_list\<close> makes the call raise
  \<^verbatim>\<open>BadValue\<close> on its first character, which cannot contain \<^verbatim>\<open>@\<close>. The empty string
  has no character: \<^verbatim>\<open>addSubscribers("")\<close> fetches, writes the snapshot back and returns,
  and \<^verbatim>\<open>removeSubscribers("")\<close> fetches and returns. The string \<^verbatim>\<open>"@"\<close> is iterated
  into the one email \<^verbatim>\<open>"@"\<close>, which passes the check, and its person is added.
\<close>

theorem string_argument_without_BadValue:
  "py_iter (Scalar (PyStr [])) = Some [] \<and>
   fst (addSubscribers (store_server (snapshot [])) demo_item (Scalar (PyStr [])) []) = Inr () \<and>
   written_bodies (snd (addSubscribers (store_server (snapshot [])) demo_item
       (Scalar (PyStr [])) [])) = [snapshot []] \<and>
   removeSubscribers (store_server (snapshot [])) demo_item (Scalar (PyStr [])) [] =
     (Inr (), [fetch_request demo_item]) \<and>
   py_iter (Scalar (PyStr ''@'')) = Some [PyStr ''@''] \<and>
   \<not> invalid_email (PyStr ''@'') \<and>
   fst (addSubscribers (store_server (snapshot [])) demo_item (Scalar (PyStr ''@'')) []) = Inr () \<and>
   written_bodies (snd (addSubscribers (store_server (snapshot [])) demo_item
       (Scalar (PyStr ''@'')) [])) =
     [XDict [(''rdf:RDF'',
             XDict [(''@xmlns:rdf'', XStr ''ns''),
                    (''rdf:Description'',
                     XDict [(''@rdf:about'', XStr ''w/7''),
                            (''rtc_cm:subscribers'', ref (person ''@''))]),
                    (''@xmlns:rtc_cm'', XStr added_url)])]]"
  by code_simp

text \<open>
  C10, amended: a non-empty string whose first character is not \<^verbatim>\<open>@\<close> (such as
  \<^verbatim>\<open>"a@x.com"\<close>) passes the iterability check, the initial \<^verbatim>\<open>GET\<close> is issued, and the
  string is iterated character by character: when the \<^verbatim>\<open>GET\<close> succeeds the call raises
  \<^verbatim>\<open>BadValue\<close> for the first character, taken as an email, and nothing is written.
\<close>

theorem string_argument_iterated:
  assumes "c \<noteq> CHR ''@''"
  shows
   "addSubscribers t self (Scalar (PyStr (c # cs))) tr =
      (case t tr (fetch_request self) of
         Inl e \<Rightarrow> Inl e
       | Inr resp \<Rightarrow> Inl (BadValue (InvalidEmail (PyStr [c]))),
       tr @ [fetch_request self]) \<and>
    removeSubscribers t self (Scalar (PyStr (c # cs))) tr =
      (case t tr (fetch_request self) of
         Inl e \<Rightarrow> Inl e
       | Inr resp \<Rightarrow> Inl (BadValue (InvalidEmail (PyStr [c]))),
       tr @ [fetch_request self])"
  using assms
  by (simp add: addSubscribers_eq removeSubscribers_eq add_subscriber_invalid
        remove_subscriber_invalid split: sum.splits)

theorem string_argument_iterated_witness:
  "CHR ''a'' \<noteq> CHR ''@'' \<and>
   addSubscribers (store_server (snapshot [])) demo_item (Scalar (PyStr ''a@x.com'')) [] =
     (Inl (BadValue (InvalidEmail (PyStr ''a''))), [fetch_request demo_item]) \<and>
   removeSubscribers (store_server (snapshot [])) demo_item (Scalar (PyStr ''a@x.com'')) [] =
     (Inl (BadValue (InvalidEmail (PyStr ''a''))), [fetch_request demo_item])"
proof -
  have h: "CHR ''a'' \<noteq> CHR ''@''" by simp
  have g: "store_server (snapshot []) [] (fetch_request demo_item)
     = Inr \<lparr>content = snapshot [], resp_headers = [(''etag'', ''v'')]\<rparr>"
    by (simp add: store_server_def fetch_request_def)
  from string_argument_iterated[OF h, of "store_server (snapshot [])" demo_item "''@x.com''" "[]"]
  show ?thesis using h g by simp
qed

end
